theory Spec2Isabelle
  imports Main
begin

section \<open>Go values\<close>

text \<open>
  A Go string is modelled as the list of the units its UTF-8 decoding yields: a code point,
  or a stray byte that belongs to no valid encoding (numbered above every code point, so
  that two different Go strings stay different). Equality, concatenation and map lookup
  are those of the byte strings; \<open>strings.TrimSpace\<close> and \<open>strings.Fields\<close> work on
  these units.
\<close>

type_synonym rune = nat
type_synonym gostring = "rune list"

definition str :: "string \<Rightarrow> gostring" where
  "str s = map (of_char :: char \<Rightarrow> nat) s"

text \<open>An \<open>interface{}\<close> value, as far as the kernel looks at it.\<close>

datatype any = AnyNil | AnyString gostring | AnyOther nat

text \<open>A call either returns or panics; an \<open>error\<close> result is \<open>None\<close> (nil) or its message.\<close>

datatype 'a go = Return 'a | Panic gostring

type_synonym error = "gostring option"

text \<open>
  A method that takes a lock first has a third outcome: it waits for the lock, and when
  the holder never releases it, the call never returns.
\<close>

datatype 'a call = Returns 'a | Panics gostring | Blocks

section \<open>plugin: modes, messages, tasks\<close>

type_synonym Mode = gostring

definition ModeDaemon :: Mode where
  "ModeDaemon = str ''daemon''"

definition ModeInteractive :: Mode where
  "ModeInteractive = str ''interactive''"

record Message =
  Topic :: gostring
  Payload :: any
  Source :: gostring
  Metadata :: "gostring \<rightharpoonup> any"

record Task =
  ID :: gostring
  Type :: gostring
  Input :: any
  Options :: "gostring \<rightharpoonup> any"

section \<open>daemon: the message broker\<close>

text \<open>
  A channel is a heap object shared by the broker and the subscriber; the broker's model
  keeps the channels it has made in \<open>chans\<close> and a subscription holds the index of its
  channel. \<open>accepted\<close> are the messages the channel has taken so far, in order.
\<close>

record Chan =
  cap :: nat
  accepted :: "Message list"
  chClosed :: bool

record Subscription =
  id_sub :: gostring
  ch :: nat
  topics :: "gostring list"
  bufSize :: int

text \<open>
  Every method of the broker holds the lock \<open>b.mu\<close> from its first line to its return, so
  the methods run one after the other, and none keeps the lock for ever: the wait of a
  delivery attempt ends with the timeout at the latest. The broker's model is therefore
  the table and the channels, with no field for the lock.
\<close>

record Broker =
  subscriptions :: "gostring \<rightharpoonup> Subscription"
  closed :: bool
  publishTimeout :: int
  chans :: "Chan list"

definition second :: int where
  "second = 1000000000"

definition NewBroker :: Broker where
  "NewBroker = \<lparr>subscriptions = Map.empty, closed = False,
     publishTimeout = 5 * second, chans = []\<rparr>"

text \<open>\<open>make(chan Message, n)\<close>: panics on a negative size, else allocates an open channel.\<close>

definition make_chan :: "int \<Rightarrow> Broker \<Rightarrow> nat go \<times> Broker" where
  "make_chan n b =
     (if n < 0 then (Panic (str ''makechan: size out of range''), b)
      else (Return (length (chans b)),
            b\<lparr>chans := chans b @ [\<lparr>cap = nat n, accepted = [], chClosed = False\<rparr>]\<rparr>))"

text \<open>\<open>close(c)\<close>: panics on a channel that is closed already.\<close>

definition close_chan :: "nat \<Rightarrow> Broker \<Rightarrow> unit go \<times> Broker" where
  "close_chan c b =
     (if chClosed (chans b ! c) then (Panic (str ''close of closed channel''), b)
      else (Return (), b\<lparr>chans := (chans b)[c := (chans b ! c)\<lparr>chClosed := True\<rparr>]\<rparr>))"

text \<open>
  \<open>Subscribe\<close>: on a closed broker a fresh channel is made, closed and returned, and the
  subscription table is left alone. Otherwise the channel of an earlier subscription of
  the same id is closed, and a new subscription replaces it.
\<close>

definition Subscribe :: "Broker \<Rightarrow> gostring \<Rightarrow> int \<Rightarrow> gostring list \<Rightarrow> nat go \<times> Broker" where
  "Subscribe b i n ts =
     (if closed b then
        (case make_chan 0 b of
           (Panic p, b1) \<Rightarrow> (Panic p, b1)
         | (Return c, b1) \<Rightarrow>
             (case close_chan c b1 of
                (Panic p, b2) \<Rightarrow> (Panic p, b2)
              | (Return u, b2) \<Rightarrow> (Return c, b2)))
      else
        (case (case subscriptions b i of
                 Some old \<Rightarrow> close_chan (ch old) b
               | None \<Rightarrow> (Return (), b)) of
           (Panic p, b1) \<Rightarrow> (Panic p, b1)
         | (Return u, b1) \<Rightarrow>
             (case make_chan n b1 of
                (Panic p, b2) \<Rightarrow> (Panic p, b2)
              | (Return c, b2) \<Rightarrow>
                  (Return c,
                   b2\<lparr>subscriptions := (subscriptions b2)
                        (i \<mapsto> \<lparr>id_sub = i, ch = c, topics = ts, bufSize = n\<rparr>)\<rparr>))))"

text \<open>\<open>wantsTopic\<close>: an empty filter takes every topic; else an exact match or the wildcard.\<close>

fun wantsLoop :: "gostring list \<Rightarrow> gostring \<Rightarrow> bool" where
  "wantsLoop [] topic = False"
| "wantsLoop (t # ts) topic = (if t = topic \<or> t = str ''*'' then True else wantsLoop ts topic)"

definition wantsTopic :: "Subscription \<Rightarrow> gostring \<Rightarrow> bool" where
  "wantsTopic s topic = (if length (topics s) = 0 then True else wantsLoop (topics s) topic)"

text \<open>
  How the \<open>select\<close> of one delivery attempt resolved: the queue took the message, the
  group's context was done (with the error the context then reported), or the broker's
  timeout fired first. Which of the three happens is decided by the scheduler, the
  readers and the clock, so it is an input of the model.
\<close>

datatype Outcome = Accepted | CtxDone gostring | TimedOut

text \<open>
  What one \<open>Publish\<close> call meets: the order in which the \<open>range\<close> over the subscription
  map yields its keys, the outcome of each subscriber's delivery attempt, and the moment
  each attempt returns (the error group keeps the error that is returned first).
\<close>

record Sched =
  iteration :: "gostring list"
  outcome :: "gostring \<Rightarrow> Outcome"
  finish :: "gostring \<Rightarrow> nat"

definition publishToSubscriber ::
    "Broker \<Rightarrow> Outcome \<Rightarrow> Subscription \<Rightarrow> Message \<Rightarrow> error go \<times> Broker" where
  "publishToSubscriber b oc sub msg =
     (case oc of
        Accepted \<Rightarrow>
          (if chClosed (chans b ! ch sub) then (Panic (str ''send on closed channel''), b)
           else (Return None,
                 b\<lparr>chans := (chans b)[ch sub :=
                      (chans b ! ch sub)\<lparr>accepted := accepted (chans b ! ch sub) @ [msg]\<rparr>]\<rparr>))
      | CtxDone e \<Rightarrow> (Return (Some e), b)
      | TimedOut \<Rightarrow>
          (Return (Some (str ''timeout publishing to '' @ id_sub sub @ str '' (slow consumer)'')), b))"

text \<open>The matching subscriptions, in the order the map iteration meets them.\<close>

fun findTargets :: "Broker \<Rightarrow> gostring list \<Rightarrow> gostring \<Rightarrow> Subscription list" where
  "findTargets b [] topic = []"
| "findTargets b (k # ks) topic =
     (case subscriptions b k of
        None \<Rightarrow> findTargets b ks topic
      | Some sub \<Rightarrow>
          (if wantsTopic sub topic then sub # findTargets b ks topic
           else findTargets b ks topic))"

text \<open>
  The error group: the attempts in the order they return, the first error kept.
  A panic in a delivery goroutine ends the process.
\<close>

fun runGroup ::
    "Broker \<Rightarrow> (gostring \<Rightarrow> Outcome) \<Rightarrow> Message \<Rightarrow> Subscription list \<Rightarrow> error go \<times> Broker" where
  "runGroup b oc msg [] = (Return None, b)"
| "runGroup b oc msg (sub # subs) =
     (case publishToSubscriber b (oc (id_sub sub)) sub msg of
        (Panic p, b1) \<Rightarrow> (Panic p, b1)
      | (Return r, b1) \<Rightarrow>
          (case runGroup b1 oc msg subs of
             (Panic p, b2) \<Rightarrow> (Panic p, b2)
           | (Return rest, b2) \<Rightarrow>
               (Return (case r of Some e \<Rightarrow> Some e | None \<Rightarrow> rest), b2)))"

definition Publish :: "Broker \<Rightarrow> Sched \<Rightarrow> Message \<Rightarrow> error go \<times> Broker" where
  "Publish b sched msg =
     (if closed b then (Return (Some (str ''broker is closed'')), b)
      else
        (let targets = findTargets b (iteration sched) (Topic msg) in
         if length targets = 0 then (Return None, b)
         else
           (case runGroup b (outcome sched) msg
                   (sort_key (\<lambda>sub. finish sched (id_sub sub)) targets) of
              (Panic p, b1) \<Rightarrow> (Panic p, b1)
            | (Return (Some e), b1) \<Rightarrow> (Return (Some (str ''publish failed: '' @ e)), b1)
            | (Return None, b1) \<Rightarrow> (Return None, b1))))"

definition Unsubscribe :: "Broker \<Rightarrow> gostring \<Rightarrow> unit go \<times> Broker" where
  "Unsubscribe b i =
     (case subscriptions b i of
        None \<Rightarrow> (Return (), b)
      | Some sub \<Rightarrow>
          (case close_chan (ch sub) b of
             (Panic p, b1) \<Rightarrow> (Panic p, b1)
           | (Return u, b1) \<Rightarrow> (Return (), b1\<lparr>subscriptions := (subscriptions b1)(i := None)\<rparr>)))"

fun closeAll :: "Broker \<Rightarrow> gostring list \<Rightarrow> unit go \<times> Broker" where
  "closeAll b [] = (Return (), b)"
| "closeAll b (k # ks) =
     (case subscriptions b k of
        None \<Rightarrow> closeAll b ks
      | Some sub \<Rightarrow>
          (case close_chan (ch sub) b of
             (Panic p, b1) \<Rightarrow> (Panic p, b1)
           | (Return u, b1) \<Rightarrow> closeAll b1 ks))"

text \<open>\<open>Close\<close>; \<open>ks\<close> is the order in which the map iteration yields the keys.\<close>

definition Close :: "Broker \<Rightarrow> gostring list \<Rightarrow> unit go \<times> Broker" where
  "Close b ks =
     (if closed b then (Return (), b)
      else
        (case closeAll (b\<lparr>closed := True\<rparr>) ks of
           (Panic p, b1) \<Rightarrow> (Panic p, b1)
         | (Return u, b1) \<Rightarrow> (Return (), b1\<lparr>subscriptions := Map.empty\<rparr>)))"

definition SetPublishTimeout :: "Broker \<Rightarrow> int \<Rightarrow> Broker" where
  "SetPublishTimeout b timeout = b\<lparr>publishTimeout := timeout\<rparr>"

section \<open>plugin: extensions, executors, plugins\<close>

type_synonym ExtensionType = gostring

definition ExtensionTypeCommand :: ExtensionType where
  "ExtensionTypeCommand = str ''command''"

definition ExtensionTypeExecutor :: ExtensionType where
  "ExtensionTypeExecutor = str ''executor''"

definition ExtensionTypeState :: ExtensionType where
  "ExtensionTypeState = str ''state''"

definition ExtensionTypeInteraction :: ExtensionType where
  "ExtensionTypeInteraction = str ''interaction''"

record DaemonConfig =
  LogLevel :: gostring
  BrokerBufferSize :: int
  PublishTimeout :: int

record PluginConfig =
  Enabled :: bool
  Settings :: "gostring \<rightharpoonup> any"

record Config =
  Daemon_config :: DaemonConfig
  Plugins :: "gostring \<rightharpoonup> PluginConfig"
  Mode_config :: Mode

definition IsPluginEnabled :: "Config \<Rightarrow> gostring \<Rightarrow> bool" where
  "IsPluginEnabled c name =
     (case Plugins c name of
        None \<Rightarrow> True
      | Some cfg \<Rightarrow> Enabled cfg)"

text \<open>
  What the kernel reads from a \<open>context.Context\<close>: the value under "mode" when it is a
  \<open>plugin.Mode\<close>, whether a daemon is attached, the configuration, and \<open>ctx.Err()\<close>.
\<close>

record Context =
  ctx_mode :: "Mode option"
  ctx_daemon :: bool
  ctx_config :: "Config option"
  ctx_err :: error

text \<open>The \<open>Executor\<close> interface: the methods the daemon calls, by their results.\<close>

record Executor =
  Name_executor :: gostring
  ExecuteTask_executor :: "Context \<Rightarrow> Task \<Rightarrow> error"
  CancelTask :: "Context \<Rightarrow> gostring \<Rightarrow> error"

text \<open>
  An extension; \<open>asExecutor\<close> is the result of the type assertion
  \<open>ext.(plugin.Executor)\<close>: the executor when the value implements the interface.
\<close>

record Extension =
  Type_ext :: ExtensionType
  Name_ext :: gostring
  SupportsMode :: "Mode \<Rightarrow> bool"
  asExecutor :: "Executor option"

text \<open>
  A plugin, by the results of its methods. \<open>Start\<close> is handed the broker and may
  subscribe and publish on it, so it returns the broker as it leaves it.
\<close>

record Plugin =
  Name_plugin :: gostring
  CheckRequirements :: "Context \<Rightarrow> error"
  Extensions :: "Extension list"
  Start_plugin :: "Context \<Rightarrow> Broker \<Rightarrow> error \<times> Broker"
  Stop_plugin :: "Context \<Rightarrow> error"

section \<open>daemon: the daemon\<close>

type_synonym State = gostring

definition StateIdle :: State where
  "StateIdle = str ''idle''"

definition StateWorking :: State where
  "StateWorking = str ''working''"

definition StateStopped :: State where
  "StateStopped = str ''stopped''"

text \<open>
  \<open>mu\<close>: whether the lock \<open>d.mu\<close> is held. Every method releases it when it returns or
  panics (\<open>defer d.mu.Unlock()\<close>), so between two calls it is held only by a call that
  has not returned and never will.
  \<open>cancelled\<close>: whether \<open>d.cancel\<close> has run, so that \<open>d.ctx\<close> is done.
  \<open>wg\<close>: the counter of the wait group, the task goroutines that have not finished.
\<close>

record Daemon =
  mu :: bool
  state :: State
  config :: Config
  broker :: Broker
  plugins :: "gostring \<rightharpoonup> Plugin"
  cancelled :: bool
  wg :: nat
  currentTask :: "Task option"
  executor :: "Executor option"

definition New :: "Config \<Rightarrow> Daemon" where
  "New cfg = \<lparr>mu = False, state = StateIdle, config = cfg, broker = NewBroker, plugins = Map.empty,
     cancelled = False, wg = 0, currentTask = None, executor = None\<rparr>"

definition AddPlugin :: "Daemon \<Rightarrow> Plugin \<Rightarrow> error call \<times> Daemon" where
  "AddPlugin d p =
     (if mu d then (Blocks, d)
      else
        (let name = Name_plugin p in
         if \<not> IsPluginEnabled (config d) name then (Returns None, d)
         else if plugins d name \<noteq> None then
           (Returns (Some (str ''plugin '' @ name @ str '' already added'')), d)
         else (Returns None, d\<lparr>plugins := (plugins d)(name \<mapsto> p)\<rparr>)))"

text \<open>A 64-bit signed product wraps around.\<close>

definition int64 :: "int \<Rightarrow> int" where
  "int64 x = (x + 2 ^ 63) mod 2 ^ 64 - 2 ^ 63"

text \<open>The inner loop of \<open>Start\<close>: every executor extension takes the executor slot.\<close>

fun registerExecutors :: "Daemon \<Rightarrow> Extension list \<Rightarrow> Daemon" where
  "registerExecutors d [] = d"
| "registerExecutors d (ext # exts) =
     (if Type_ext ext = ExtensionTypeExecutor then
        (case asExecutor ext of
           Some ex \<Rightarrow> registerExecutors (d\<lparr>executor := Some ex\<rparr>) exts
         | None \<Rightarrow> registerExecutors d exts)
      else registerExecutors d exts)"

text \<open>
  The loop of \<open>Start\<close> over the plugin map, \<open>ks\<close> being the keys in the order the iteration
  yields them. A plugin whose requirements fail or whose \<open>Start\<close> fails is deleted.
\<close>

fun startPlugins :: "Daemon \<Rightarrow> Context \<Rightarrow> gostring list \<Rightarrow> Daemon" where
  "startPlugins d ctx [] = d"
| "startPlugins d ctx (name # ks) =
     (case plugins d name of
        None \<Rightarrow> startPlugins d ctx ks
      | Some p \<Rightarrow>
          (case CheckRequirements p ctx of
             Some err \<Rightarrow> startPlugins (d\<lparr>plugins := (plugins d)(name := None)\<rparr>) ctx ks
           | None \<Rightarrow>
               (case Start_plugin p ctx (broker d) of
                  (Some err, b1) \<Rightarrow>
                    startPlugins (d\<lparr>broker := b1, plugins := (plugins d)(name := None)\<rparr>) ctx ks
                | (None, b1) \<Rightarrow>
                    startPlugins (registerExecutors (d\<lparr>broker := b1\<rparr>) (Extensions p)) ctx ks)))"

text \<open>The context \<open>Start\<close> hands to the plugins: \<open>d.ctx\<close> with mode, daemon and config.\<close>

definition startContext :: "Daemon \<Rightarrow> Context" where
  "startContext d = \<lparr>ctx_mode = Some (Mode_config (config d)), ctx_daemon = True,
     ctx_config = Some (config d),
     ctx_err = (if cancelled d then Some (str ''context canceled'') else None)\<rparr>"

text \<open>\<open>Start\<close>; \<open>ks\<close> is the order in which the iteration yields the plugin names.\<close>

definition Start :: "Daemon \<Rightarrow> gostring list \<Rightarrow> error call \<times> Daemon" where
  "Start d ks =
     (if mu d then (Blocks, d)
      else if state d \<noteq> StateIdle then (Returns (Some (str ''daemon already started'')), d)
      else
        (let ctx = startContext d;
             d1 = d\<lparr>broker := SetPublishTimeout (broker d)
                    (int64 (PublishTimeout (Daemon_config (config d)) * second))\<rparr>
         in (Returns None, startPlugins d1 ctx ks)))"

text \<open>The loop of \<open>Stop\<close>: every plugin is stopped, its error logged and dropped.\<close>

fun stopPlugins :: "Daemon \<Rightarrow> Context \<Rightarrow> gostring list \<Rightarrow> error list" where
  "stopPlugins d ctx [] = []"
| "stopPlugins d ctx (name # ks) =
     (case plugins d name of
        None \<Rightarrow> stopPlugins d ctx ks
      | Some p \<Rightarrow> Stop_plugin p ctx # stopPlugins d ctx ks)"

text \<open>
  \<open>Stop\<close>, with the iteration orders of the plugin map and of the broker's subscription
  map. \<open>d.wg.Wait()\<close> runs with the daemon's lock held, and a task goroutine needs that
  lock before it is done: with a task in flight the call never returns, and the lock
  stays held.
\<close>

definition Stop :: "Daemon \<Rightarrow> gostring list \<Rightarrow> gostring list \<Rightarrow> error call \<times> Daemon" where
  "Stop d ks bks =
     (if mu d then (Blocks, d)
      else if state d = StateStopped then (Returns None, d)
      else
        (let d1 = d\<lparr>cancelled := True\<rparr>;
             ctx = \<lparr>ctx_mode = None, ctx_daemon = False, ctx_config = None, ctx_err = None\<rparr>;
             logged = stopPlugins d1 ctx ks
         in (case Close (broker d1) bks of
               (Panic p, b1) \<Rightarrow> (Panics p, d1\<lparr>broker := b1\<rparr>)
             | (Return u, b1) \<Rightarrow>
                 (if wg d1 \<noteq> 0 then (Blocks, d1\<lparr>broker := b1, mu := True\<rparr>)
                  else (Returns None, d1\<lparr>broker := b1, state := StateStopped\<rparr>)))))"


definition GetState :: "Daemon \<Rightarrow> State call" where
  "GetState d = (if mu d then Blocks else Returns (state d))"

definition SetState :: "Daemon \<Rightarrow> State \<Rightarrow> unit call \<times> Daemon" where
  "SetState d s = (if mu d then (Blocks, d) else (Returns (), d\<lparr>state := s\<rparr>))"


text \<open>
  The end of the task goroutine: with the executor's result \<open>r\<close> it publishes a
  notification (the publish error is dropped), then takes the lock and resets the
  daemon; only then is it done for the wait group.
\<close>

definition taskFinished :: "Daemon \<Rightarrow> Sched \<Rightarrow> error \<Rightarrow> unit call \<times> Daemon" where
  "taskFinished d sched r =
     (let msg = (case r of
                   Some err \<Rightarrow> \<lparr>Topic = str ''notification'',
                       Payload = AnyString (str ''Task failed: '' @ err),
                       Source = str ''daemon'', Metadata = Map.empty\<rparr>
                 | None \<Rightarrow> \<lparr>Topic = str ''notification'',
                       Payload = AnyString (str ''Task completed successfully''),
                       Source = str ''daemon'', Metadata = Map.empty\<rparr>)
      in (case Publish (broker d) sched msg of
            (Panic p, b1) \<Rightarrow> (Panics p, d\<lparr>broker := b1\<rparr>)
          | (Return e, b1) \<Rightarrow>
              (if mu d then (Blocks, d\<lparr>broker := b1\<rparr>)
               else (Returns (), d\<lparr>broker := b1, state := StateIdle, currentTask := None,
                                  wg := wg d - 1\<rparr>))))"

section \<open>plugin: the requirement checker\<close>

text \<open>
  A check is code of the plugin and may act on the world around it; \<open>'w\<close> is that world,
  handed from one check to the next.
\<close>

record 'w Requirement =
  Name_req :: gostring
  Description_req :: gostring
  CheckFunc :: "Context \<Rightarrow> 'w \<Rightarrow> error \<times> 'w"
  Required :: bool

record 'w RequirementChecker =
  requirements :: "'w Requirement list"
  pluginName :: gostring

definition NewRequirementChecker :: "gostring \<Rightarrow> 'w RequirementChecker" where
  "NewRequirementChecker name = \<lparr>requirements = [], pluginName = name\<rparr>"

definition Add :: "'w RequirementChecker \<Rightarrow> 'w Requirement \<Rightarrow> 'w RequirementChecker" where
  "Add rc req = rc\<lparr>requirements := requirements rc @ [req]\<rparr>"

definition AddRequired ::
    "'w RequirementChecker \<Rightarrow> gostring \<Rightarrow> gostring \<Rightarrow> (Context \<Rightarrow> 'w \<Rightarrow> error \<times> 'w) \<Rightarrow>
     'w RequirementChecker" where
  "AddRequired rc name description checkFunc =
     Add rc \<lparr>Name_req = name, Description_req = description, CheckFunc = checkFunc,
             Required = True\<rparr>"

definition AddOptional ::
    "'w RequirementChecker \<Rightarrow> gostring \<Rightarrow> gostring \<Rightarrow> (Context \<Rightarrow> 'w \<Rightarrow> error \<times> 'w) \<Rightarrow>
     'w RequirementChecker" where
  "AddOptional rc name description checkFunc =
     Add rc \<lparr>Name_req = name, Description_req = description, CheckFunc = checkFunc,
             Required = False\<rparr>"

text \<open>\<open>strings.Join\<close>.\<close>

fun Join :: "gostring list \<Rightarrow> gostring \<Rightarrow> gostring" where
  "Join [] sep = []"
| "Join [e] sep = e"
| "Join (e # es) sep = e @ sep @ Join es sep"

text \<open>The loop of \<open>Check\<close>, with its two accumulators.\<close>

fun checkLoop ::
    "'w Requirement list \<Rightarrow> Context \<Rightarrow> gostring list \<Rightarrow> gostring list \<Rightarrow> 'w \<Rightarrow>
     gostring list \<times> gostring list \<times> 'w" where
  "checkLoop [] ctx errors warnings w = (errors, warnings, w)"
| "checkLoop (req # reqs) ctx errors warnings w =
     (case CheckFunc req ctx w of
        (Some err, w1) \<Rightarrow>
          (let msg = Name_req req @ str '': '' @ err in
           if Required req then checkLoop reqs ctx (errors @ [msg]) warnings w1
           else checkLoop reqs ctx errors (warnings @ [msg]) w1)
      | (None, w1) \<Rightarrow> checkLoop reqs ctx errors warnings w1)"

definition Check :: "'w RequirementChecker \<Rightarrow> Context \<Rightarrow> 'w \<Rightarrow> error \<times> 'w" where
  "Check rc ctx w =
     (if length (requirements rc) = 0 then (None, w)
      else
        (case checkLoop (requirements rc) ctx [] [] w of
           (errors, warnings, w1) \<Rightarrow>
             (if length errors > 0 then
                (Some (str ''requirement check(s) failed: '' @ Join errors (str ''; '')), w1)
              else (None, w1))))"

section \<open>cmd: the command registry and the router\<close>

record CommandResult =
  Output :: gostring
  Data :: any
  Broadcast :: bool

text \<open>
  A handler is code of a plugin: it returns a result and an error, and may act on the
  world \<open>'w\<close> around it (the daemon it finds in the context included).
\<close>

type_synonym 'w CommandHandler =
  "Context \<Rightarrow> gostring list \<Rightarrow> 'w \<Rightarrow> (CommandResult option \<times> error) \<times> 'w"

record 'w Command =
  Name :: gostring
  Description :: gostring
  Usage :: gostring
  Handler :: "'w CommandHandler"
  Modes :: "Mode list"
  Hidden :: bool

record 'w CommandRegistry =
  commands :: "gostring \<rightharpoonup> 'w Command"

text \<open>
  The registry's lock \<open>cr.mu\<close> is held for the access to the map only and is released
  before a handler runs, so no call keeps it; the model has no field for it.
\<close>

text \<open>\<open>Register\<close>: a name registered twice is a panic.\<close>

definition Register :: "'w CommandRegistry \<Rightarrow> 'w Command \<Rightarrow> unit go \<times> 'w CommandRegistry" where
  "Register cr cmd =
     (if commands cr (Name cmd) \<noteq> None then
        (Panic (str ''command '' @ Name cmd @ str '' already registered''), cr)
      else (Return (), cr\<lparr>commands := (commands cr)(Name cmd \<mapsto> cmd)\<rparr>))"

definition Get :: "'w CommandRegistry \<Rightarrow> gostring \<Rightarrow> 'w Command option" where
  "Get cr name = commands cr name"

fun containsMode :: "Mode list \<Rightarrow> Mode \<Rightarrow> bool" where
  "containsMode [] mode = False"
| "containsMode (m # ms) mode = (if m = mode then True else containsMode ms mode)"

text \<open>
  \<open>Execute\<close>. \<open>ctx.Value("mode").(plugin.Mode)\<close> yields the mode and true, or the empty
  mode and false.
\<close>

definition Execute ::
    "'w CommandRegistry \<Rightarrow> Context \<Rightarrow> gostring \<Rightarrow> gostring list \<Rightarrow> 'w \<Rightarrow>
     (CommandResult option \<times> error) \<times> 'w" where
  "Execute cr ctx name args w =
     (case commands cr name of
        None \<Rightarrow> ((None, Some (str ''unknown command: '' @ name)), w)
      | Some cmd \<Rightarrow>
          (let (mode, ok) = (case ctx_mode ctx of Some m \<Rightarrow> (m, True) | None \<Rightarrow> ([], False)) in
           if ok \<and> length (Modes cmd) > 0 \<and> \<not> containsMode (Modes cmd) mode then
             ((None, Some (str ''command /'' @ name @ str '' not available in '' @ mode @
                           str '' mode'')), w)
           else Handler cmd ctx args w))"

text \<open>
  \<open>unicode.IsSpace\<close>, which \<open>strings.TrimSpace\<close> and \<open>strings.Fields\<close> use: tab, line
  feed, vertical tab, form feed, carriage return, space, U+0085, U+00A0, U+1680,
  U+2000 to U+200A, U+2028, U+2029, U+202F, U+205F and U+3000.
\<close>

definition isSpace :: "rune \<Rightarrow> bool" where
  "isSpace r = (r \<in> set [9, 10, 11, 12, 13, 32, 133, 160, 5760, 8192, 8193, 8194, 8195, 8196,
     8197, 8198, 8199, 8200, 8201, 8202, 8232, 8233, 8239, 8287, 12288])"

definition TrimSpace :: "gostring \<Rightarrow> gostring" where
  "TrimSpace s = rev (dropWhile isSpace (rev (dropWhile isSpace s)))"

definition HasPrefix :: "gostring \<Rightarrow> gostring \<Rightarrow> bool" where
  "HasPrefix s pre = (length s \<ge> length pre \<and> take (length pre) s = pre)"

definition TrimPrefix :: "gostring \<Rightarrow> gostring \<Rightarrow> gostring" where
  "TrimPrefix s pre = (if HasPrefix s pre then drop (length pre) s else s)"

text \<open>
  \<open>strings.Fields\<close>: a scan that cuts at every run of white space; \<open>cur\<close> is the field
  under way.
\<close>

fun fieldsFrom :: "gostring \<Rightarrow> gostring \<Rightarrow> gostring list" where
  "fieldsFrom cur [] = (if cur = [] then [] else [cur])"
| "fieldsFrom cur (r # s) =
     (if isSpace r then (if cur = [] then fieldsFrom [] s else cur # fieldsFrom [] s)
      else fieldsFrom (cur @ [r]) s)"

definition Fields :: "gostring \<Rightarrow> gostring list" where
  "Fields s = fieldsFrom [] s"

record 'w Router =
  registry :: "'w CommandRegistry"

definition parseCommand :: "gostring \<Rightarrow> gostring \<times> gostring list" where
  "parseCommand input =
     (let input1 = TrimPrefix input (str ''/'');
          tokens = Fields input1
      in case tokens of
           [] \<Rightarrow> ([], [])
         | cmdName # args \<Rightarrow> (cmdName, args))"

definition Route ::
    "'w Router \<Rightarrow> Context \<Rightarrow> gostring \<Rightarrow> 'w \<Rightarrow> (CommandResult option \<times> error) \<times> 'w" where
  "Route r ctx input w =
     (let input1 = TrimSpace input in
      if input1 = [] then ((None, Some (str ''empty command'')), w)
      else
        (case parseCommand input1 of
           (cmdName, args) \<Rightarrow>
             (if cmdName = [] then ((None, Some (str ''invalid command format'')), w)
              else Execute (registry r) ctx cmdName args w)))"

definition IsCommand :: "gostring \<Rightarrow> bool" where
  "IsCommand input = HasPrefix (TrimSpace input) (str ''/'')"

section \<open>Notions used in the statements\<close>

text \<open>
  The broker only sends on channels of its table, which it closes when it drops them:
  the channels of the subscriptions \<open>subs\<close> are allocated and open.
\<close>

definition openTargets :: "Broker \<Rightarrow> Subscription list \<Rightarrow> bool" where
  "openTargets b subs =
     list_all (\<lambda>sub. ch sub < length (chans b) \<and> \<not> chClosed (chans b ! ch sub)) subs"

text \<open>
  What the broker's operations keep true of its table: the channel of every subscription
  is allocated and open, and no two subscriptions share a channel.
\<close>

definition wellFormed :: "Broker \<Rightarrow> bool" where
  "wellFormed b \<longleftrightarrow>
     (\<forall>i sub. subscriptions b i = Some sub \<longrightarrow>
        ch sub < length (chans b) \<and> \<not> chClosed (chans b ! ch sub)) \<and>
     (\<forall>i j s t. subscriptions b i = Some s \<longrightarrow> subscriptions b j = Some t \<longrightarrow>
        ch s = ch t \<longrightarrow> i = j)"

text \<open>The error one delivery attempt ends in, by its outcome.\<close>

definition attemptError :: "Outcome \<Rightarrow> Subscription \<Rightarrow> error" where
  "attemptError oc sub =
     (case oc of
        Accepted \<Rightarrow> None
      | CtxDone e \<Rightarrow> Some e
      | TimedOut \<Rightarrow> Some (str ''timeout publishing to '' @ id_sub sub @ str '' (slow consumer)''))"

text \<open>The error of the first attempt of a list that fails.\<close>

fun firstError :: "(gostring \<Rightarrow> Outcome) \<Rightarrow> Subscription list \<Rightarrow> error" where
  "firstError oc [] = None"
| "firstError oc (sub # subs) =
     (case attemptError (oc (id_sub sub)) sub of
        Some e \<Rightarrow> Some e
      | None \<Rightarrow> firstError oc subs)"

text \<open>
  The checks of a list run one after the other, each on the world the one before it has
  left: their results in the order of the list, and the world after the last.
\<close>

fun runChecks :: "'w Requirement list \<Rightarrow> Context \<Rightarrow> 'w \<Rightarrow> error list \<times> 'w" where
  "runChecks [] ctx w = ([], w)"
| "runChecks (req # reqs) ctx w =
     (case CheckFunc req ctx w of
        (r, w1) \<Rightarrow> (case runChecks reqs ctx w1 of (rs, w2) \<Rightarrow> (r # rs, w2)))"

text \<open>
  Given the requirements and the results of their checks: the messages "<name>: <error>"
  of the failed checks that are required (or, for \<open>False\<close>, of those that are optional),
  in the order of the list.
\<close>

fun failedMessages :: "bool \<Rightarrow> 'w Requirement list \<Rightarrow> error list \<Rightarrow> gostring list" where
  "failedMessages required (req # reqs) (Some e # rs) =
     (if Required req = required then [Name_req req @ str '': '' @ e] else []) @
     failedMessages required reqs rs"
| "failedMessages required (req # reqs) (None # rs) = failedMessages required reqs rs"
| "failedMessages required reqs rs = []"

text \<open>
  The executors a plugin offers: those of its extensions that are of the executor type
  and implement the \<open>Executor\<close> interface, in the order of the extensions.
\<close>

definition executorsOf :: "Plugin \<Rightarrow> Executor list" where
  "executorsOf p =
     List.map_filter
       (\<lambda>ext. if Type_ext ext = ExtensionTypeExecutor then asExecutor ext else None)
       (Extensions p)"

text \<open>
  The executors discovered during a start, in the order of discovery. The plugins are
  visited in the order \<open>ks\<close>; a plugin counts when its requirements hold and its \<open>Start\<close>
  returns nil, one that fails is dropped from the table; \<open>b\<close> is the broker as the
  plugins started before have left it.
\<close>

fun discovered ::
    "(gostring \<rightharpoonup> Plugin) \<Rightarrow> Broker \<Rightarrow> Context \<Rightarrow> gostring list \<Rightarrow> Executor list" where
  "discovered ps b ctx [] = []"
| "discovered ps b ctx (name # ks) =
     (case ps name of
        None \<Rightarrow> discovered ps b ctx ks
      | Some p \<Rightarrow>
          (case CheckRequirements p ctx of
             Some err \<Rightarrow> discovered (ps(name := None)) b ctx ks
           | None \<Rightarrow>
               (case Start_plugin p ctx b of
                  (Some err, b1) \<Rightarrow> discovered (ps(name := None)) b1 ctx ks
                | (None, b1) \<Rightarrow> executorsOf p @ discovered ps b1 ctx ks)))"

text \<open>The broker as \<open>Start\<close> hands it to the plugins, the publish timeout set.\<close>

definition startBroker :: "Daemon \<Rightarrow> Broker" where
  "startBroker d =
     SetPublishTimeout (broker d) (int64 (PublishTimeout (Daemon_config (config d)) * second))"

text \<open>A string without the white space at its end.\<close>

definition trimRight :: "gostring \<Rightarrow> gostring" where
  "trimRight s = rev (dropWhile isSpace (rev s))"

text \<open>\<open>strings.Contains\<close>: a message names an id when the id occurs in it.\<close>

fun Contains :: "gostring \<Rightarrow> gostring \<Rightarrow> bool" where
  "Contains [] substr = (substr = [])"
| "Contains (r # s) substr = (take (length substr) (r # s) = substr \<or> Contains s substr)"

section \<open>Values the theorems are exercised on\<close>

text \<open>\<open>config.DefaultConfig()\<close>.\<close>

definition DefaultConfig :: Config where
  "DefaultConfig = \<lparr>Daemon_config = \<lparr>LogLevel = str ''info'', BrokerBufferSize = 100,
       PublishTimeout = 5\<rparr>,
     Plugins = Map.empty, Mode_config = ModeDaemon\<rparr>"

text \<open>
  An executor plugin in the manner of the repository's "llm" plugin: its requirements
  hold, its \<open>Start\<close> and \<open>Stop\<close> return nil, and it offers one executor extension. The
  executor's \<open>CancelTask\<close> here reports an error.
\<close>

definition exampleExecutor :: Executor where
  "exampleExecutor = \<lparr>Name_executor = str ''llm'',
     ExecuteTask_executor = (\<lambda>ctx t. None),
     CancelTask = (\<lambda>ctx i. Some (str ''no task running''))\<rparr>"

definition examplePlugin :: Plugin where
  "examplePlugin = \<lparr>Name_plugin = str ''llm'',
     CheckRequirements = (\<lambda>ctx. None),
     Extensions = [\<lparr>Type_ext = ExtensionTypeExecutor, Name_ext = str ''llm'',
        SupportsMode = (\<lambda>m. True), asExecutor = Some exampleExecutor\<rparr>],
     Start_plugin = (\<lambda>ctx b. (None, b)),
     Stop_plugin = (\<lambda>ctx. None)\<rparr>"


definition exampleContext :: Context where
  "exampleContext = \<lparr>ctx_mode = Some ModeDaemon, ctx_daemon = True, ctx_config = None,
     ctx_err = None\<rparr>"




definition exampleSubscription :: Subscription where
  "exampleSubscription = \<lparr>id_sub = str ''s1'', ch = 0, topics = [str ''chat''], bufSize = 0\<rparr>"

definition exampleMessage :: Message where
  "exampleMessage = \<lparr>Topic = str ''chat'', Payload = AnyString (str ''hello''),
     Source = str ''terminal'', Metadata = Map.empty\<rparr>"

definition exampleSched :: Sched where
  "exampleSched = \<lparr>iteration = [str ''s1'', str ''s2''],
     outcome = (\<lambda>i. if i = str ''s1'' then CtxDone (str ''context deadline exceeded'')
                     else TimedOut),
     finish = (\<lambda>i. if i = str ''s1'' then 0 else 1)\<rparr>"

text \<open>A broker with the subscribers "s1" and "s2", both on topic "chat", unbuffered.\<close>

definition twoSubscribers :: Broker where
  "twoSubscribers =
     snd (Subscribe (snd (Subscribe NewBroker (str ''s1'') 0 [str ''chat'']))
            (str ''s2'') 0 [str ''chat''])"

text \<open>"s1" takes the message at once; "s2" is not read and runs into the timeout.\<close>

definition slowSched :: Sched where
  "slowSched = \<lparr>iteration = [str ''s2'', str ''s1''],
     outcome = (\<lambda>i. if i = str ''s1'' then Accepted else TimedOut),
     finish = (\<lambda>i. if i = str ''s1'' then 0 else 5)\<rparr>"

text \<open>
  Two commands in the manner of the built-in ones, whose handlers count their calls in
  the world: "ask" for the interactive mode only, "status" for both modes.
\<close>

definition interactiveCommand :: "nat Command" where
  "interactiveCommand = \<lparr>Name = str ''ask'', Description = str ''Ask the agent'',
     Usage = str ''<question>'',
     Handler = (\<lambda>ctx args n. ((Some \<lparr>Output = Join args (str '' ''), Data = AnyNil,
                                        Broadcast = False\<rparr>, None), Suc n)),
     Modes = [ModeInteractive], Hidden = False\<rparr>"

definition statusCommand :: "nat Command" where
  "statusCommand = \<lparr>Name = str ''status'', Description = str ''Show daemon status'',
     Usage = [],
     Handler = (\<lambda>ctx args n. ((Some \<lparr>Output = str ''Status: Running'', Data = AnyNil,
                                        Broadcast = False\<rparr>, None), Suc n)),
     Modes = [ModeDaemon, ModeInteractive], Hidden = False\<rparr>"

text \<open>The registry, empty at first, after the two commands have been registered.\<close>

definition exampleRegistry :: "nat CommandRegistry" where
  "exampleRegistry =
     snd (Register (snd (Register \<lparr>commands = Map.empty\<rparr> interactiveCommand)) statusCommand)"

definition exampleRouter :: "nat Router" where
  "exampleRouter = \<lparr>registry = exampleRegistry\<rparr>"

text \<open>
  A checker with four checks, each of which writes its name into the world, a log: a
  required one that fails, an optional one that fails, a required one that passes and
  a required one that fails.
\<close>

definition exampleChecker :: "gostring list RequirementChecker" where
  "exampleChecker =
     AddRequired (AddRequired (AddOptional (AddRequired (NewRequirementChecker (str ''llm''))
         (str ''mode'') (str ''runs in daemon mode'')
         (\<lambda>ctx log. (Some (str ''mode not set in context''), log @ [str ''mode''])))
         (str ''cache'') (str ''has a cache directory'')
         (\<lambda>ctx log. (Some (str ''no cache directory''), log @ [str ''cache''])))
         (str ''config'') (str ''has a configuration'')
         (\<lambda>ctx log. (None, log @ [str ''config''])))
       (str ''api-key'') (str ''has an API key'')
       (\<lambda>ctx log. (Some (str ''API key not set''), log @ [str ''api-key'']))"

text \<open>
  A second plugin with an executor, behind a command extension, and a daemon to which
  both plugins have been added.
\<close>

definition shellExecutor :: Executor where
  "shellExecutor = \<lparr>Name_executor = str ''shell'',
     ExecuteTask_executor = (\<lambda>ctx t. None),
     CancelTask = (\<lambda>ctx i. None)\<rparr>"

definition shellPlugin :: Plugin where
  "shellPlugin = \<lparr>Name_plugin = str ''shell'',
     CheckRequirements = (\<lambda>ctx. None),
     Extensions = [\<lparr>Type_ext = ExtensionTypeCommand, Name_ext = str ''run'',
        SupportsMode = (\<lambda>m. True), asExecutor = None\<rparr>,
       \<lparr>Type_ext = ExtensionTypeExecutor, Name_ext = str ''shell'',
        SupportsMode = (\<lambda>m. True), asExecutor = Some shellExecutor\<rparr>],
     Start_plugin = (\<lambda>ctx b. (None, b)),
     Stop_plugin = (\<lambda>ctx. None)\<rparr>"

definition twoPlugins :: Daemon where
  "twoPlugins = snd (AddPlugin (snd (AddPlugin (New DefaultConfig) examplePlugin)) shellPlugin)"

section \<open>Properties of the broker\<close>

lemma wantsLoop_iff: "wantsLoop ts topic \<longleftrightarrow> topic \<in> set ts \<or> str ''*'' \<in> set ts"
  by (induction ts) auto

text \<open>
  C5. A subscription with topic filter F matches a message topic T exactly when F is
  empty, or F contains T, or F contains the wildcard token "*"; so a filter that names
  topics, but neither T nor the wildcard, does not match T.
\<close>

theorem wantsTopic_iff:
  "(wantsTopic s T \<longleftrightarrow> topics s = [] \<or> T \<in> set (topics s) \<or> str ''*'' \<in> set (topics s)) \<and>
   (topics s \<noteq> [] \<and> T \<notin> set (topics s) \<and> str ''*'' \<notin> set (topics s) \<longrightarrow> \<not> wantsTopic s T)"
  by (simp add: wantsTopic_def wantsLoop_iff)

theorem wantsTopic_iff_witness:
  "wantsTopic exampleSubscription (str ''chat'') \<and>
   topics exampleSubscription \<noteq> [] \<and>
   str ''response'' \<notin> set (topics exampleSubscription) \<and>
   str ''*'' \<notin> set (topics exampleSubscription) \<and>
   \<not> wantsTopic exampleSubscription (str ''response'')"
  using wantsTopic_iff [of exampleSubscription "str ''chat''"]
    wantsTopic_iff [of exampleSubscription "str ''response''"]
  by (simp add: exampleSubscription_def str_def)

text \<open>
  C10. On a closed broker \<open>Publish\<close> returns the error "broker is closed" and leaves the
  broker, its channels included, as it was: no delivery is attempted. \<open>Subscribe\<close> on a
  closed broker returns no error but the handle of a fresh channel that is closed
  already, and adds no subscription.
\<close>

theorem Publish_after_close:
  "closed b \<Longrightarrow>
     Publish b sched msg = (Return (Some (str ''broker is closed'')), b) \<and>
     Subscribe b i n ts =
       (Return (length (chans b)),
        b\<lparr>chans := chans b @ [\<lparr>cap = 0, accepted = [], chClosed = True\<rparr>]\<rparr>)"
  by (simp add: Publish_def Subscribe_def make_chan_def close_chan_def)

lemma Close_NewBroker: "Close NewBroker [] = (Return (), NewBroker\<lparr>closed := True\<rparr>)"
  by (simp add: Close_def NewBroker_def)

theorem Publish_after_close_witness:
  "closed (snd (Close NewBroker [])) \<and>
   Publish (snd (Close NewBroker [])) exampleSched exampleMessage =
     (Return (Some (str ''broker is closed'')), snd (Close NewBroker [])) \<and>
   fst (Subscribe (snd (Close NewBroker [])) (str ''s1'') 0 [str ''chat'']) = Return 0 \<and>
   chClosed (chans (snd (Subscribe (snd (Close NewBroker [])) (str ''s1'') 0 [str ''chat''])) ! 0) \<and>
   subscriptions (snd (Subscribe (snd (Close NewBroker [])) (str ''s1'') 0 [str ''chat'']))
     (str ''s1'') = None"
  using Publish_after_close [of "snd (Close NewBroker [])" exampleSched exampleMessage
      "str ''s1''" 0 "[str ''chat'']"]
  by (simp add: Close_NewBroker) (simp add: NewBroker_def)

lemma publishToSubscriber_open:
  assumes "ch sub < length (chans b)" "\<not> chClosed (chans b ! ch sub)"
  shows "\<exists>b1. publishToSubscriber b oc sub msg = (Return (attemptError oc sub), b1) \<and>
           length (chans b1) = length (chans b) \<and>
           (\<forall>c < length (chans b). chClosed (chans b1 ! c) = chClosed (chans b ! c))"
  using assms
  by (cases oc) (auto simp: publishToSubscriber_def attemptError_def nth_list_update)

lemma openTargets_cong:
  assumes "length (chans b1) = length (chans b)"
    "\<forall>c < length (chans b). chClosed (chans b1 ! c) = chClosed (chans b ! c)"
  shows "openTargets b1 subs = openTargets b subs"
  using assms by (auto simp: openTargets_def list_all_iff)

lemma runGroup_open:
  "openTargets b subs \<Longrightarrow> fst (runGroup b oc msg subs) = Return (firstError oc subs)"
proof (induction subs arbitrary: b)
  case Nil
  then show ?case by simp
next
  case (Cons sub subs)
  from Cons.prems have o1: "ch sub < length (chans b)" "\<not> chClosed (chans b ! ch sub)"
    and o2: "openTargets b subs"
    by (simp_all add: openTargets_def)
  from publishToSubscriber_open [OF o1, of "oc (id_sub sub)" msg]
  obtain b1 where p: "publishToSubscriber b (oc (id_sub sub)) sub msg =
        (Return (attemptError (oc (id_sub sub)) sub), b1)"
    and l: "length (chans b1) = length (chans b)"
    and c: "\<forall>c < length (chans b). chClosed (chans b1 ! c) = chClosed (chans b ! c)"
    by blast
  have "openTargets b1 subs"
    using openTargets_cong [OF l c] o2 by simp
  then have ih: "fst (runGroup b1 oc msg subs) = Return (firstError oc subs)"
    by (rule Cons.IH)
  show ?case
    using p ih by (auto split: prod.splits go.splits option.splits)
qed

lemma firstError_None:
  "firstError oc subs = None \<longleftrightarrow> (\<forall>sub \<in> set subs. oc (id_sub sub) = Accepted)"
  by (induction subs) (auto simp: attemptError_def split: option.splits Outcome.splits)

lemma firstError_sorted:
  assumes "sorted (map f subs)" "sub \<in> set subs" "attemptError (oc (id_sub sub)) sub = Some e"
    "\<forall>t \<in> set subs. t \<noteq> sub \<longrightarrow> oc (id_sub t) = Accepted \<or> f sub < f t"
  shows "firstError oc subs = Some e"
  using assms
proof (induction subs)
  case Nil
  then show ?case by simp
next
  case (Cons x xs)
  show ?case
  proof (cases "x = sub")
    case True
    with Cons.prems show ?thesis by simp
  next
    case False
    with Cons.prems have in_xs: "sub \<in> set xs" by simp
    with Cons.prems(1) have "f x \<le> f sub" by auto
    with Cons.prems(4) False have "oc (id_sub x) = Accepted" by force
    then have "attemptError (oc (id_sub x)) x = None" by (simp add: attemptError_def)
    moreover have "firstError oc xs = Some e"
      using Cons.IH Cons.prems in_xs by auto
    ultimately show ?thesis by simp
  qed
qed

lemma openTargets_sort: "openTargets b (sort_key f subs) = openTargets b subs"
  by (simp add: openTargets_def list_all_iff)

lemma Publish_open:
  assumes "\<not> closed b" "findTargets b (iteration sched) (Topic msg) = targets"
    "targets \<noteq> []" "openTargets b targets"
  shows "fst (Publish b sched msg) =
     Return (case firstError (outcome sched)
                    (sort_key (\<lambda>sub. finish sched (id_sub sub)) targets) of
               None \<Rightarrow> None
             | Some e \<Rightarrow> Some (str ''publish failed: '' @ e))"
proof -
  let ?order = "sort_key (\<lambda>sub. finish sched (id_sub sub)) targets"
  have "openTargets b ?order"
    using assms(4) by (simp add: openTargets_sort)
  then have "fst (runGroup b (outcome sched) msg ?order) = Return (firstError (outcome sched) ?order)"
    by (rule runGroup_open)
  then show ?thesis
    using assms(1-3)
    by (auto simp: Publish_def Let_def split: prod.splits go.splits option.splits)
qed

text \<open>
  The channels of the matched subscribers are open on every broker that the operations
  of the broker have built.
\<close>

lemma wellFormedI:
  assumes "\<And>i sub. subscriptions b i = Some sub \<Longrightarrow> ch sub < length (chans b)"
    "\<And>i sub. subscriptions b i = Some sub \<Longrightarrow> \<not> chClosed (chans b ! ch sub)"
    "\<And>i j s t. subscriptions b i = Some s \<Longrightarrow> subscriptions b j = Some t \<Longrightarrow>
        ch s = ch t \<Longrightarrow> i = j"
  shows "wellFormed b"
  unfolding wellFormed_def using assms by blast

lemma wellFormed_bound:
  "wellFormed b \<Longrightarrow> subscriptions b i = Some sub \<Longrightarrow> ch sub < length (chans b)"
  unfolding wellFormed_def by blast

lemma wellFormed_open:
  "wellFormed b \<Longrightarrow> subscriptions b i = Some sub \<Longrightarrow> \<not> chClosed (chans b ! ch sub)"
  unfolding wellFormed_def by blast

lemma wellFormed_inj:
  "wellFormed b \<Longrightarrow> subscriptions b i = Some s \<Longrightarrow> subscriptions b j = Some t \<Longrightarrow>
     ch s = ch t \<Longrightarrow> i = j"
  unfolding wellFormed_def by blast

lemma wellFormed_NewBroker: "wellFormed NewBroker"
  by (simp add: wellFormed_def NewBroker_def)

lemma wellFormed_Subscribe:
  assumes wf: "wellFormed b" and s: "Subscribe b i n ts = (Return c, b')"
  shows "wellFormed b'"
proof (cases "closed b")
  case True
  with s have b': "b' = b\<lparr>chans := chans b @ [\<lparr>cap = 0, accepted = [], chClosed = True\<rparr>]\<rparr>"
    by (simp add: Subscribe_def make_chan_def close_chan_def)
  show ?thesis
  proof (rule wellFormedI)
    fix j sub assume "subscriptions b' j = Some sub"
    then have m: "subscriptions b j = Some sub" by (simp add: b')
    from wellFormed_bound [OF wf m] show "ch sub < length (chans b')" by (simp add: b')
    from wellFormed_bound [OF wf m] wellFormed_open [OF wf m]
    show "\<not> chClosed (chans b' ! ch sub)" by (simp add: b' nth_append)
  next
    fix j k s t assume "subscriptions b' j = Some s" "subscriptions b' k = Some t" "ch s = ch t"
    then show "j = k" using wellFormed_inj [OF wf, of j s k t] by (simp add: b')
  qed
next
  case False
  define cs where "cs = (case subscriptions b i of None \<Rightarrow> chans b
     | Some old \<Rightarrow> (chans b)[ch old := (chans b ! ch old)\<lparr>chClosed := True\<rparr>])"
  have len: "length cs = length (chans b)"
    by (simp add: cs_def split: option.splits)
  have keep: "\<not> chClosed (cs ! ch sub)" if m: "subscriptions b j = Some sub" and ne: "j \<noteq> i"
    for j sub
  proof (cases "subscriptions b i")
    case None
    with wellFormed_open [OF wf m] show ?thesis by (simp add: cs_def)
  next
    case (Some old)
    from wellFormed_inj [OF wf m Some] ne have "ch sub \<noteq> ch old" by blast
    with wellFormed_open [OF wf m] Some show ?thesis by (simp add: cs_def)
  qed
  have b': "b' = b\<lparr>chans := cs @ [\<lparr>cap = nat n, accepted = [], chClosed = False\<rparr>],
        subscriptions := (subscriptions b)
          (i \<mapsto> \<lparr>id_sub = i, ch = length (chans b), topics = ts, bufSize = n\<rparr>)\<rparr>"
  proof (cases "subscriptions b i")
    case None
    with False s show ?thesis
      by (auto simp add: Subscribe_def make_chan_def cs_def split: if_splits)
  next
    case (Some old)
    with wellFormed_open [OF wf Some] False s show ?thesis
      by (auto simp add: Subscribe_def make_chan_def close_chan_def cs_def split: if_splits)
  qed
  show ?thesis
  proof (rule wellFormedI)
    fix j sub assume a: "subscriptions b' j = Some sub"
    show "ch sub < length (chans b')"
    proof (cases "j = i")
      case True
      with a show ?thesis by (auto simp add: b' len)
    next
      case False
      with a have "subscriptions b j = Some sub" by (simp add: b')
      from wellFormed_bound [OF wf this] show ?thesis by (simp add: b' len)
    qed
    show "\<not> chClosed (chans b' ! ch sub)"
    proof (cases "j = i")
      case True
      with a show ?thesis by (auto simp add: b' len nth_append)
    next
      case False
      with a have m: "subscriptions b j = Some sub" by (simp add: b')
      from wellFormed_bound [OF wf m] keep [OF m False] show ?thesis
        by (simp add: b' len nth_append)
    qed
  next
    fix j k s t
    assume a: "subscriptions b' j = Some s" "subscriptions b' k = Some t" "ch s = ch t"
    have fresh: "ch u \<noteq> length (chans b)" if "subscriptions b l = Some u" for l u
      using wellFormed_bound [OF wf that] by simp
    show "j = k"
    proof (cases "j = i")
      case ji: True
      show ?thesis
      proof (cases "k = i")
        case True
        with ji show ?thesis by simp
      next
        case False
        with a(2) have "subscriptions b k = Some t" by (simp add: b')
        from fresh [OF this] ji a(1,3) show ?thesis by (auto simp add: b')
      qed
    next
      case ji: False
      with a(1) have mj: "subscriptions b j = Some s" by (simp add: b')
      show ?thesis
      proof (cases "k = i")
        case True
        with fresh [OF mj] a(2,3) show ?thesis by (auto simp add: b')
      next
        case False
        with a(2) have "subscriptions b k = Some t" by (simp add: b')
        from wellFormed_inj [OF wf mj this a(3)] show ?thesis .
      qed
    qed
  qed
qed

lemma wellFormed_Unsubscribe:
  assumes wf: "wellFormed b"
  shows "fst (Unsubscribe b i) = Return () \<and> wellFormed (snd (Unsubscribe b i))"
proof (cases "subscriptions b i")
  case None
  with assms show ?thesis by (simp add: Unsubscribe_def)
next
  case (Some old)
  from Some wellFormed_open [OF wf Some] have u: "Unsubscribe b i = (Return (),
      b\<lparr>chans := (chans b)[ch old := (chans b ! ch old)\<lparr>chClosed := True\<rparr>],
        subscriptions := (subscriptions b)(i := None)\<rparr>)"
    by (simp add: Unsubscribe_def close_chan_def)
  have "wellFormed (b\<lparr>chans := (chans b)[ch old := (chans b ! ch old)\<lparr>chClosed := True\<rparr>],
        subscriptions := (subscriptions b)(i := None)\<rparr>)"
  proof (rule wellFormedI)
    fix j sub
    assume "subscriptions (b\<lparr>chans := (chans b)[ch old := (chans b ! ch old)\<lparr>chClosed := True\<rparr>],
        subscriptions := (subscriptions b)(i := None)\<rparr>) j = Some sub"
    then have ne: "j \<noteq> i" and m: "subscriptions b j = Some sub"
      by (simp_all split: if_splits)
    from wellFormed_bound [OF wf m]
    show "ch sub < length (chans (b\<lparr>chans := (chans b)[ch old := (chans b ! ch old)\<lparr>chClosed := True\<rparr>],
        subscriptions := (subscriptions b)(i := None)\<rparr>))" by simp
    from wellFormed_inj [OF wf m Some] ne have "ch sub \<noteq> ch old" by blast
    with wellFormed_open [OF wf m]
    show "\<not> chClosed (chans (b\<lparr>chans := (chans b)[ch old := (chans b ! ch old)\<lparr>chClosed := True\<rparr>],
        subscriptions := (subscriptions b)(i := None)\<rparr>) ! ch sub)" by simp
  next
    fix j k s t
    assume "subscriptions (b\<lparr>chans := (chans b)[ch old := (chans b ! ch old)\<lparr>chClosed := True\<rparr>],
        subscriptions := (subscriptions b)(i := None)\<rparr>) j = Some s"
      "subscriptions (b\<lparr>chans := (chans b)[ch old := (chans b ! ch old)\<lparr>chClosed := True\<rparr>],
        subscriptions := (subscriptions b)(i := None)\<rparr>) k = Some t" "ch s = ch t"
    then have "subscriptions b j = Some s" "subscriptions b k = Some t" "ch s = ch t"
      by (simp_all split: if_splits)
    then show "j = k" by (rule wellFormed_inj [OF wf])
  qed
  with u show ?thesis by simp
qed

lemma wellFormed_Close:
  assumes "wellFormed b" "Close b ks = (Return u, b')"
  shows "wellFormed b'"
proof (cases "closed b")
  case True
  with assms show ?thesis by (simp add: Close_def)
next
  case False
  with assms(2) have "subscriptions b' = Map.empty"
    by (auto simp: Close_def split: prod.splits go.splits)
  then show ?thesis by (simp add: wellFormed_def)
qed

lemma publishToSubscriber_frame:
  "subscriptions (snd (publishToSubscriber b oc sub msg)) = subscriptions b \<and>
   closed (snd (publishToSubscriber b oc sub msg)) = closed b \<and>
   map chClosed (chans (snd (publishToSubscriber b oc sub msg))) = map chClosed (chans b)"
proof (cases oc)
  case Accepted
  show ?thesis
  proof (cases "ch sub < length (chans b)")
    case True
    with Accepted show ?thesis
      by (simp add: publishToSubscriber_def map_update list_update_same_conv)
  next
    case False
    then have "length (chans b) \<le> ch sub" by simp
    with Accepted show ?thesis
      by (simp add: publishToSubscriber_def list_update_beyond)
  qed
qed (simp_all add: publishToSubscriber_def)

lemma runGroup_frame:
  "subscriptions (snd (runGroup b oc msg subs)) = subscriptions b \<and>
   closed (snd (runGroup b oc msg subs)) = closed b \<and>
   map chClosed (chans (snd (runGroup b oc msg subs))) = map chClosed (chans b)"
proof (induction subs arbitrary: b)
  case Nil
  show ?case by simp
next
  case (Cons sub subs)
  obtain r b1 where p: "publishToSubscriber b (oc (id_sub sub)) sub msg = (r, b1)"
    by (cases "publishToSubscriber b (oc (id_sub sub)) sub msg")
  with publishToSubscriber_frame [of b "oc (id_sub sub)" sub msg]
  have f1: "subscriptions b1 = subscriptions b" "closed b1 = closed b"
    "map chClosed (chans b1) = map chClosed (chans b)" by simp_all
  obtain r2 b2 where g: "runGroup b1 oc msg subs = (r2, b2)"
    by (cases "runGroup b1 oc msg subs")
  with Cons.IH [of b1] f1
  have f2: "subscriptions b2 = subscriptions b" "closed b2 = closed b"
    "map chClosed (chans b2) = map chClosed (chans b)" by simp_all
  show ?case
  proof (cases r)
    case (Panic x)
    with p f1 show ?thesis by simp
  next
    case (Return e)
    show ?thesis
    proof (cases r2)
      case (Panic x)
      with Return p g f2 show ?thesis by simp
    next
      case (Return e2)
      with \<open>r = Return e\<close> p g f2 show ?thesis by simp
    qed
  qed
qed

lemma Publish_frame:
  "subscriptions (snd (Publish b sched msg)) = subscriptions b \<and>
   closed (snd (Publish b sched msg)) = closed b \<and>
   map chClosed (chans (snd (Publish b sched msg))) = map chClosed (chans b)"
proof -
  let ?subs = "sort_key (\<lambda>sub. finish sched (id_sub sub))
     (findTargets b (iteration sched) (Topic msg))"
  obtain r b1 where g: "runGroup b (outcome sched) msg ?subs = (r, b1)"
    by (cases "runGroup b (outcome sched) msg ?subs")
  with runGroup_frame [of b "outcome sched" msg ?subs]
  have f: "subscriptions b1 = subscriptions b" "closed b1 = closed b"
    "map chClosed (chans b1) = map chClosed (chans b)" by simp_all
  show ?thesis
  proof (cases r)
    case (Panic x)
    with g f show ?thesis by (simp add: Publish_def Let_def)
  next
    case (Return e)
    with g f show ?thesis by (cases e) (simp_all add: Publish_def Let_def)
  qed
qed

lemma wellFormed_frame:
  assumes s: "subscriptions b1 = subscriptions b"
    and c: "map chClosed (chans b1) = map chClosed (chans b)"
  shows "wellFormed b1 = wellFormed b"
proof -
  from c have "length (map chClosed (chans b1)) = length (map chClosed (chans b))" by simp
  then have l: "length (chans b1) = length (chans b)" by simp
  have n: "chClosed (chans b1 ! k) = chClosed (chans b ! k)" if "k < length (chans b)" for k
  proof -
    from c have "map chClosed (chans b1) ! k = map chClosed (chans b) ! k" by simp
    with that l show ?thesis by simp
  qed
  show ?thesis
    unfolding wellFormed_def s l using n by blast
qed

lemma wellFormed_Publish: "wellFormed (snd (Publish b sched msg)) = wellFormed b"
  by (rule wellFormed_frame) (simp_all add: Publish_frame)

lemma findTargets_subscriptions:
  "sub \<in> set (findTargets b ks topic) \<Longrightarrow> \<exists>k. subscriptions b k = Some sub"
  by (induction ks) (auto split: option.splits if_splits)

lemma wellFormed_openTargets:
  assumes "wellFormed b"
  shows "openTargets b (findTargets b ks topic)"
  unfolding openTargets_def list_all_iff
proof
  fix sub assume "sub \<in> set (findTargets b ks topic)"
  then obtain k where "subscriptions b k = Some sub"
    using findTargets_subscriptions by blast
  with assms show "ch sub < length (chans b) \<and> \<not> chClosed (chans b ! ch sub)"
    using wellFormed_bound wellFormed_open by blast
qed

lemma firstError_first:
  assumes "sorted (map f subs)" "firstError oc subs = Some e"
  shows "\<exists>sub \<in> set subs. attemptError (oc (id_sub sub)) sub = Some e \<and>
           (\<forall>t \<in> set subs. oc (id_sub t) \<noteq> Accepted \<longrightarrow> f sub \<le> f t)"
  using assms
proof (induction subs)
  case Nil
  then show ?case by simp
next
  case (Cons x xs)
  show ?case
  proof (cases "attemptError (oc (id_sub x)) x")
    case None
    then have acc: "oc (id_sub x) = Accepted"
      by (simp add: attemptError_def split: Outcome.splits)
    from None Cons.prems have "firstError oc xs = Some e" by simp
    with Cons.IH Cons.prems(1) obtain sub where "sub \<in> set xs"
      "attemptError (oc (id_sub sub)) sub = Some e"
      "\<forall>t \<in> set xs. oc (id_sub t) \<noteq> Accepted \<longrightarrow> f sub \<le> f t"
      by auto
    with acc show ?thesis by auto
  next
    case (Some e')
    with Cons.prems have "e' = e" by simp
    with Some Cons.prems(1) show ?thesis by auto
  qed
qed

text \<open>
  C4, as the code has it. On an open broker with at least one matched subscriber, whose
  channels are open: \<open>Publish\<close> returns nil exactly when every delivery attempt was
  accepted. When some attempt failed, by timeout or by a done context, it returns one
  error "publish failed: ..." though other deliveries may have succeeded, and that error
  is the one of a failing attempt before which no failing attempt returned: the timeout
  message with that attempt's subscriber id, or the error of the done context. An
  attempt that failed while every other attempt was accepted or returned later decides
  the error: if it timed out, the message is "publish failed: timeout publishing to <id>
  (slow consumer)" with its subscriber's id; if its context was done, the message is
  "publish failed: " and the context's error.
\<close>

theorem Publish_first_failure:
  assumes "\<not> closed b" and "findTargets b (iteration sched) (Topic msg) = targets"
    and "targets \<noteq> []" and "openTargets b targets"
  shows "(fst (Publish b sched msg) = Return None \<longleftrightarrow>
            (\<forall>sub \<in> set targets. outcome sched (id_sub sub) = Accepted)) \<and>
         ((\<exists>sub \<in> set targets. outcome sched (id_sub sub) \<noteq> Accepted) \<longrightarrow>
            (\<exists>sub \<in> set targets.
               (\<forall>t \<in> set targets. outcome sched (id_sub t) \<noteq> Accepted \<longrightarrow>
                  finish sched (id_sub sub) \<le> finish sched (id_sub t)) \<and>
               (outcome sched (id_sub sub) = TimedOut \<and>
                  fst (Publish b sched msg) =
                    Return (Some (str ''publish failed: timeout publishing to '' @ id_sub sub @
                                  str '' (slow consumer)'')) \<or>
                (\<exists>e. outcome sched (id_sub sub) = CtxDone e \<and>
                  fst (Publish b sched msg) = Return (Some (str ''publish failed: '' @ e)))))) \<and>
         (\<forall>sub \<in> set targets.
            (\<forall>t \<in> set targets. t \<noteq> sub \<longrightarrow>
               outcome sched (id_sub t) = Accepted \<or>
               finish sched (id_sub sub) < finish sched (id_sub t)) \<longrightarrow>
            (outcome sched (id_sub sub) = TimedOut \<longrightarrow>
               fst (Publish b sched msg) =
                 Return (Some (str ''publish failed: timeout publishing to '' @ id_sub sub @
                               str '' (slow consumer)''))) \<and>
            (\<forall>e. outcome sched (id_sub sub) = CtxDone e \<longrightarrow>
               fst (Publish b sched msg) = Return (Some (str ''publish failed: '' @ e))))"
proof -
  let ?f = "\<lambda>sub. finish sched (id_sub sub)"
  let ?order = "sort_key ?f targets"
  note pub = Publish_open [OF assms]
  have none: "firstError (outcome sched) ?order = None \<longleftrightarrow>
      (\<forall>sub \<in> set targets. outcome sched (id_sub sub) = Accepted)"
    by (simp add: firstError_None)
  have a: "fst (Publish b sched msg) = Return None \<longleftrightarrow>
      (\<forall>sub \<in> set targets. outcome sched (id_sub sub) = Accepted)"
    using pub none by (auto split: option.splits)
  have b: "\<exists>sub \<in> set targets.
      (\<forall>t \<in> set targets. outcome sched (id_sub t) \<noteq> Accepted \<longrightarrow> ?f sub \<le> ?f t) \<and>
      (outcome sched (id_sub sub) = TimedOut \<and>
         fst (Publish b sched msg) =
           Return (Some (str ''publish failed: timeout publishing to '' @ id_sub sub @
                         str '' (slow consumer)'')) \<or>
       (\<exists>e. outcome sched (id_sub sub) = CtxDone e \<and>
         fst (Publish b sched msg) = Return (Some (str ''publish failed: '' @ e))))"
    if failed: "\<exists>sub \<in> set targets. outcome sched (id_sub sub) \<noteq> Accepted"
  proof -
    from failed none obtain e where e: "firstError (outcome sched) ?order = Some e"
      by (cases "firstError (outcome sched) ?order") auto
    have "sorted (map ?f ?order)" by simp
    from firstError_first [OF this e] obtain sub where s: "sub \<in> set targets"
      and err: "attemptError (outcome sched (id_sub sub)) sub = Some e"
      and first: "\<forall>t \<in> set targets. outcome sched (id_sub t) \<noteq> Accepted \<longrightarrow> ?f sub \<le> ?f t"
      by auto
    from pub e have r: "fst (Publish b sched msg) = Return (Some (str ''publish failed: '' @ e))"
      by simp
    show ?thesis
    proof (cases "outcome sched (id_sub sub)")
      case Accepted
      with err show ?thesis by (simp add: attemptError_def)
    next
      case (CtxDone e')
      with err have "e' = e" by (simp add: attemptError_def)
      with CtxDone r s first show ?thesis by blast
    next
      case TimedOut
      with err have "e = str ''timeout publishing to '' @ id_sub sub @ str '' (slow consumer)''"
        by (simp add: attemptError_def)
      with r have "fst (Publish b sched msg) =
          Return (Some (str ''publish failed: timeout publishing to '' @ id_sub sub @
                        str '' (slow consumer)''))"
        by (simp add: str_def)
      with TimedOut s first show ?thesis by blast
    qed
  qed
  have c: "fst (Publish b sched msg) = Return (Some (str ''publish failed: '' @ e))"
    if s: "sub \<in> set targets" and t: "attemptError (outcome sched (id_sub sub)) sub = Some e"
      and o: "\<forall>t \<in> set targets. t \<noteq> sub \<longrightarrow>
               outcome sched (id_sub t) = Accepted \<or> ?f sub < ?f t" for sub e
  proof -
    have "firstError (outcome sched) ?order = Some e"
    proof (rule firstError_sorted [where f = ?f])
      show "sorted (map ?f ?order)" by simp
      show "sub \<in> set ?order" using s by simp
      show "attemptError (outcome sched (id_sub sub)) sub = Some e" by (rule t)
      show "\<forall>t \<in> set ?order. t \<noteq> sub \<longrightarrow>
          outcome sched (id_sub t) = Accepted \<or> ?f sub < ?f t"
        using o by simp
    qed
    with pub show ?thesis by simp
  qed
  have c1: "fst (Publish b sched msg) =
        Return (Some (str ''publish failed: timeout publishing to '' @ id_sub sub @
                      str '' (slow consumer)''))"
    if "sub \<in> set targets" "outcome sched (id_sub sub) = TimedOut"
      "\<forall>t \<in> set targets. t \<noteq> sub \<longrightarrow>
          outcome sched (id_sub t) = Accepted \<or> ?f sub < ?f t" for sub
    using c [of sub "str ''timeout publishing to '' @ id_sub sub @ str '' (slow consumer)''"] that
    by (simp add: attemptError_def str_def)
  have c2: "fst (Publish b sched msg) = Return (Some (str ''publish failed: '' @ e))"
    if "sub \<in> set targets" "outcome sched (id_sub sub) = CtxDone e"
      "\<forall>t \<in> set targets. t \<noteq> sub \<longrightarrow>
          outcome sched (id_sub t) = Accepted \<or> ?f sub < ?f t" for sub e
    using c [of sub e] that by (simp add: attemptError_def)
  from a b c1 c2 show ?thesis by blast
qed

lemma twoSubscribers_eq:
  "twoSubscribers = \<lparr>subscriptions =
       [str ''s1'' \<mapsto> \<lparr>id_sub = str ''s1'', ch = 0, topics = [str ''chat''], bufSize = 0\<rparr>,
        str ''s2'' \<mapsto> \<lparr>id_sub = str ''s2'', ch = 1, topics = [str ''chat''], bufSize = 0\<rparr>],
     closed = False, publishTimeout = 5 * second,
     chans = [\<lparr>cap = 0, accepted = [], chClosed = False\<rparr>,
              \<lparr>cap = 0, accepted = [], chClosed = False\<rparr>]\<rparr>"
  by (simp add: twoSubscribers_def Subscribe_def NewBroker_def make_chan_def str_def)

theorem Publish_first_failure_witness:
  "\<not> closed twoSubscribers \<and>
   findTargets twoSubscribers (iteration slowSched) (Topic exampleMessage) \<noteq> [] \<and>
   openTargets twoSubscribers
     (findTargets twoSubscribers (iteration slowSched) (Topic exampleMessage)) \<and>
   outcome slowSched (str ''s1'') = Accepted \<and>
   outcome slowSched (str ''s2'') = TimedOut \<and>
   fst (Publish twoSubscribers slowSched exampleMessage) =
     Return (Some (str ''publish failed: timeout publishing to s2 (slow consumer)'')) \<and>
   accepted (chans (snd (Publish twoSubscribers slowSched exampleMessage)) ! 0) =
     [exampleMessage]"
  using Publish_first_failure [of twoSubscribers slowSched exampleMessage
      "findTargets twoSubscribers (iteration slowSched) (Topic exampleMessage)"]
  apply (simp add: twoSubscribers_eq)
  apply (simp add: Publish_def slowSched_def exampleMessage_def wantsTopic_def openTargets_def
      publishToSubscriber_def Let_def str_def)
  done

text \<open>
  C4, as the claim states it, fails: both subscribers of \<open>twoSubscribers\<close> match, the
  attempt for "s2" ends in the timeout, but the attempt for "s1" has returned before
  with the error of the done context. \<open>Publish\<close> returns that error, and its message
  does not name "s2".
\<close>

theorem Publish_timeout_not_named:
  "\<not> closed twoSubscribers \<and>
   map id_sub (findTargets twoSubscribers (iteration exampleSched) (Topic exampleMessage)) =
     [str ''s1'', str ''s2''] \<and>
   outcome exampleSched (str ''s2'') = TimedOut \<and>
   fst (Publish twoSubscribers exampleSched exampleMessage) =
     Return (Some (str ''publish failed: context deadline exceeded'')) \<and>
   \<not> Contains (str ''publish failed: context deadline exceeded'') (str ''s2'')"
  apply (simp add: twoSubscribers_eq)
  apply (simp add: Publish_def exampleSched_def exampleMessage_def wantsTopic_def
      publishToSubscriber_def Let_def str_def)
  done

section \<open>Properties of the daemon\<close>

lemma states_distinct:
  "StateIdle \<noteq> StateWorking" "StateIdle \<noteq> StateStopped" "StateWorking \<noteq> StateStopped"
  by (simp_all add: StateIdle_def StateWorking_def StateStopped_def str_def)

lemma registerExecutors_state:
  "state (registerExecutors d exts) = state d \<and> mu (registerExecutors d exts) = mu d"
  by (induction d exts rule: registerExecutors.induct) (auto split: option.splits)

lemma startPlugins_state:
  "state (startPlugins d ctx ks) = state d \<and> mu (startPlugins d ctx ks) = mu d"
  by (induction d ctx ks rule: startPlugins.induct)
     (auto simp: registerExecutors_state split: option.splits prod.splits)

text \<open>\<open>Start\<close> leaves the state as it found it: an idle daemon is idle afterwards.\<close>

lemma Start_keeps_idle:
  "\<not> mu d \<Longrightarrow> state d = StateIdle \<Longrightarrow>
     fst (Start d ks) = Returns None \<and> state (snd (Start d ks)) = StateIdle \<and>
     \<not> mu (snd (Start d ks))"
  by (simp add: Start_def Let_def startPlugins_state)

text \<open>Once \<open>Stop\<close> has returned, \<open>Start\<close> is refused.\<close>

lemma Start_after_Stop:
  "fst (Stop d ks bks) = Returns r \<Longrightarrow>
     Start (snd (Stop d ks bks)) ks' =
       (Returns (Some (str ''daemon already started'')), snd (Stop d ks bks))"
  using states_distinct
  by (auto simp add: Stop_def Start_def Let_def split: prod.splits go.splits if_splits)





text \<open>
  C1. The claim: \<open>Start\<close> fails whenever the daemon has been started already. The code,
  evaluated: after \<open>AddPlugin\<close> and a first \<open>Start\<close>, a second \<open>Start\<close> with no \<open>Stop\<close> in
  between returns nil again, since \<open>Start\<close> never moves the state away from idle.
\<close>

theorem Start_twice_succeeds:
  "fst (AddPlugin (New DefaultConfig) examplePlugin) = Returns None \<and>
   fst (Start (snd (AddPlugin (New DefaultConfig) examplePlugin)) [str ''llm'']) =
     Returns None \<and>
   fst (Start (snd (Start (snd (AddPlugin (New DefaultConfig) examplePlugin)) [str ''llm'']))
          [str ''llm'']) = Returns None"
  by (simp add: Start_keeps_idle AddPlugin_def New_def IsPluginEnabled_def DefaultConfig_def
      examplePlugin_def Let_def)







text \<open>The executor slot after the loop of \<open>Start\<close>: every discovery assigned in turn.\<close>

lemma registerExecutors_executor:
  "executor (registerExecutors d exts) =
     fold (\<lambda>ex slot. Some ex)
       (List.map_filter
          (\<lambda>ext. if Type_ext ext = ExtensionTypeExecutor then asExecutor ext else None) exts)
       (executor d) \<and>
   plugins (registerExecutors d exts) = plugins d \<and>
   broker (registerExecutors d exts) = broker d"
proof (induction exts arbitrary: d)
  case Nil
  show ?case by (simp add: List.map_filter_simps)
next
  case (Cons ext exts)
  show ?case
  proof (cases "Type_ext ext = ExtensionTypeExecutor")
    case False
    with Cons.IH [of d] show ?thesis by (simp add: List.map_filter_simps)
  next
    case True
    show ?thesis
    proof (cases "asExecutor ext")
      case None
      with True Cons.IH [of d] show ?thesis by (simp add: List.map_filter_simps)
    next
      case (Some ex)
      with True Cons.IH [of "d\<lparr>executor := Some ex\<rparr>"] show ?thesis
        by (simp add: List.map_filter_simps)
    qed
  qed
qed

lemma startPlugins_executor:
  "executor (startPlugins d ctx ks) =
     fold (\<lambda>ex slot. Some ex) (discovered (plugins d) (broker d) ctx ks) (executor d)"
proof (induction ks arbitrary: d)
  case Nil
  show ?case by simp
next
  case (Cons name ks)
  show ?case
  proof (cases "plugins d name")
    case None
    with Cons.IH [of d] show ?thesis by simp
  next
    case (Some p)
    show ?thesis
    proof (cases "CheckRequirements p ctx")
      case (Some err)
      with \<open>plugins d name = Some p\<close> Cons.IH [of "d\<lparr>plugins := (plugins d)(name := None)\<rparr>"]
      show ?thesis by (simp add: fun_upd_def)
    next
      case None
      obtain r b1 where s: "Start_plugin p ctx (broker d) = (r, b1)"
        by (cases "Start_plugin p ctx (broker d)")
      show ?thesis
      proof (cases r)
        case (Some err)
        with None s \<open>plugins d name = Some p\<close>
          Cons.IH [of "d\<lparr>broker := b1, plugins := (plugins d)(name := None)\<rparr>"]
        show ?thesis by (simp add: fun_upd_def)
      next
        case rn: None
        let ?d1 = "registerExecutors (d\<lparr>broker := b1\<rparr>) (Extensions p)"
        from registerExecutors_executor [of "d\<lparr>broker := b1\<rparr>" "Extensions p"]
        have e: "executor ?d1 = fold (\<lambda>ex slot. Some ex) (executorsOf p) (executor d)"
          and pl: "plugins ?d1 = plugins d" and br: "broker ?d1 = b1"
          by (simp_all add: executorsOf_def)
        from Cons.IH [of ?d1] e pl br
        have "executor (startPlugins ?d1 ctx ks) =
            fold (\<lambda>ex slot. Some ex) (executorsOf p @ discovered (plugins d) b1 ctx ks) (executor d)"
          by simp
        with None rn s \<open>plugins d name = Some p\<close> show ?thesis by simp
      qed
    qed
  qed
qed

lemma fold_last: "fold (\<lambda>ex slot. Some ex) xs s = (if xs = [] then s else Some (last xs))"
  by (induction xs arbitrary: s) simp_all

text \<open>
  C9. When \<open>Start\<close> has returned nil, the daemon's one executor slot holds what the
  discoveries, assigned to it one after the other in the order of discovery, leave in
  it: the last executor discovered among the plugins that were started, when there is
  one, and what the slot held before, when no executor was discovered.
\<close>

theorem Start_last_executor:
  assumes "fst (Start d ks) = Returns None"
    and "discovered (plugins d) (startBroker d) (startContext d) ks = xs"
  shows "executor (snd (Start d ks)) = fold (\<lambda>ex slot. Some ex) xs (executor d) \<and>
         (xs \<noteq> [] \<longrightarrow> executor (snd (Start d ks)) = Some (last xs)) \<and>
         (xs = [] \<longrightarrow> executor (snd (Start d ks)) = executor d)"
proof -
  from assms(1) have free: "\<not> mu d" and idle: "state d = StateIdle"
    by (auto simp: Start_def split: if_splits)
  have "executor (snd (Start d ks)) = fold (\<lambda>ex slot. Some ex) xs (executor d)"
    using free idle assms(2)
      startPlugins_executor [of "d\<lparr>broker := startBroker d\<rparr>" "startContext d" ks]
    by (simp add: Start_def Let_def startBroker_def)
  then show ?thesis by (simp add: fold_last)
qed

lemma twoPlugins_eq:
  "twoPlugins = (New DefaultConfig)\<lparr>plugins :=
     [str ''llm'' \<mapsto> examplePlugin, str ''shell'' \<mapsto> shellPlugin]\<rparr>"
  by (simp add: twoPlugins_def AddPlugin_def New_def IsPluginEnabled_def DefaultConfig_def
      examplePlugin_def shellPlugin_def Let_def str_def)

lemma llm_shell: "str ''llm'' \<noteq> str ''shell''"
  by (simp add: str_def)

lemma executorsOf_examples:
  "executorsOf examplePlugin = [exampleExecutor]" "executorsOf shellPlugin = [shellExecutor]"
  by (simp_all add: executorsOf_def examplePlugin_def shellPlugin_def List.map_filter_simps
      ExtensionTypeExecutor_def ExtensionTypeCommand_def str_def)

lemma plugin_examples:
  "CheckRequirements examplePlugin ctx = None" "Start_plugin examplePlugin ctx b = (None, b)"
  "CheckRequirements shellPlugin ctx = None" "Start_plugin shellPlugin ctx b = (None, b)"
  by (simp_all add: examplePlugin_def shellPlugin_def)

lemma discovered_twoPlugins:
  "discovered (plugins twoPlugins) b ctx [str ''llm'', str ''shell''] =
     [exampleExecutor, shellExecutor]"
  "discovered (plugins twoPlugins) b ctx [str ''shell'', str ''llm''] =
     [shellExecutor, exampleExecutor]"
  using llm_shell
  by (simp_all add: twoPlugins_eq executorsOf_examples plugin_examples)

lemma twoPlugins_fields:
  "\<not> mu twoPlugins" "state twoPlugins = StateIdle" "executor twoPlugins = None"
  by (simp_all add: twoPlugins_eq New_def)

lemma executor_names: "Name_executor shellExecutor \<noteq> Name_executor exampleExecutor"
  by (simp add: shellExecutor_def exampleExecutor_def str_def)

theorem Start_last_executor_witness:
  "fst (Start twoPlugins [str ''llm'', str ''shell'']) = Returns None \<and>
   fst (Start twoPlugins [str ''shell'', str ''llm'']) = Returns None \<and>
   discovered (plugins twoPlugins) (startBroker twoPlugins) (startContext twoPlugins)
     [str ''llm'', str ''shell''] = [exampleExecutor, shellExecutor] \<and>
   executor (snd (Start twoPlugins [str ''llm'', str ''shell''])) = Some shellExecutor \<and>
   discovered (plugins twoPlugins) (startBroker twoPlugins) (startContext twoPlugins)
     [str ''shell'', str ''llm''] = [shellExecutor, exampleExecutor] \<and>
   executor (snd (Start twoPlugins [str ''shell'', str ''llm''])) = Some exampleExecutor \<and>
   Name_executor shellExecutor \<noteq> Name_executor exampleExecutor"
  using Start_last_executor [of twoPlugins "[str ''llm'', str ''shell'']"
      "[exampleExecutor, shellExecutor]"]
    Start_last_executor [of twoPlugins "[str ''shell'', str ''llm'']"
      "[shellExecutor, exampleExecutor]"]
  by (simp add: twoPlugins_fields Start_keeps_idle discovered_twoPlugins executor_names
      del: discovered.simps)

section \<open>Properties of the requirement checker\<close>

lemma runChecks_length: "runChecks reqs ctx w = (rs, w') \<Longrightarrow> length rs = length reqs"
proof (induction reqs arbitrary: w rs w')
  case Nil
  then show ?case by simp
next
  case (Cons req reqs)
  obtain r w1 where c: "CheckFunc req ctx w = (r, w1)" by (cases "CheckFunc req ctx w")
  obtain rs1 w2 where t: "runChecks reqs ctx w1 = (rs1, w2)" by (cases "runChecks reqs ctx w1")
  from Cons.prems c t have "rs = r # rs1" by simp
  with Cons.IH [OF t] show ?case by simp
qed

lemma checkLoop_runChecks:
  "runChecks reqs ctx w = (rs, w') \<Longrightarrow>
     checkLoop reqs ctx errors warnings w =
       (errors @ failedMessages True reqs rs, warnings @ failedMessages False reqs rs, w')"
proof (induction reqs arbitrary: w rs w' errors warnings)
  case Nil
  then show ?case by simp
next
  case (Cons req reqs)
  obtain r w1 where c: "CheckFunc req ctx w = (r, w1)" by (cases "CheckFunc req ctx w")
  obtain rs1 w2 where t: "runChecks reqs ctx w1 = (rs1, w2)" by (cases "runChecks reqs ctx w1")
  from Cons.prems c t have rs: "rs = r # rs1" and w': "w' = w2" by simp_all
  note ih = Cons.IH [OF t]
  show ?case
  proof (cases r)
    case None
    with c rs w' ih [of errors warnings] show ?thesis by simp
  next
    case (Some e)
    show ?thesis
    proof (cases "Required req")
      case True
      with Some c rs w' ih [of "errors @ [Name_req req @ str '': '' @ e]" warnings]
      show ?thesis by (simp add: Let_def)
    next
      case False
      with Some c rs w' ih [of errors "warnings @ [Name_req req @ str '': '' @ e]"]
      show ?thesis by (simp add: Let_def)
    qed
  qed
qed

lemma failedMessages_Nil:
  "failedMessages required reqs rs = [] \<longleftrightarrow>
     (\<forall>p \<in> set (zip reqs rs). Required (fst p) = required \<longrightarrow> snd p = None)"
  by (induction required reqs rs rule: failedMessages.induct) auto

lemma Check_runChecks:
  assumes "runChecks (requirements rc) ctx w = (rs, w')"
  shows "snd (Check rc ctx w) = w' \<and>
     (fst (Check rc ctx w) = None \<longleftrightarrow>
        (\<forall>p \<in> set (zip (requirements rc) rs). Required (fst p) \<longrightarrow> snd p = None)) \<and>
     (fst (Check rc ctx w) \<noteq> None \<longrightarrow>
        fst (Check rc ctx w) =
          Some (str ''requirement check(s) failed: '' @
                Join (failedMessages True (requirements rc) rs) (str ''; '')))"
proof (cases "requirements rc")
  case Nil
  with assms show ?thesis by (simp add: Check_def)
next
  case (Cons req reqs)
  then have ne: "length (requirements rc) \<noteq> 0" by simp
  from checkLoop_runChecks [OF assms, of "[]" "[]"]
  have loop: "checkLoop (requirements rc) ctx [] [] w =
      (failedMessages True (requirements rc) rs, failedMessages False (requirements rc) rs, w')"
    by simp
  have nil: "failedMessages True (requirements rc) rs = [] \<longleftrightarrow>
      (\<forall>p \<in> set (zip (requirements rc) rs). Required (fst p) \<longrightarrow> snd p = None)"
    by (simp add: failedMessages_Nil)
  show ?thesis
  proof (cases "failedMessages True (requirements rc) rs = []")
    case True
    with ne loop have "Check rc ctx w = (None, w')" by (simp add: Check_def)
    with True nil show ?thesis by simp
  next
    case False
    with ne loop have "Check rc ctx w =
        (Some (str ''requirement check(s) failed: '' @
               Join (failedMessages True (requirements rc) rs) (str ''; '')), w')"
      by (simp add: Check_def)
    with False nil show ?thesis by simp
  qed
qed

text \<open>
  C6. \<open>Check\<close> runs the check of every requirement, in the order of registration, a
  failure stopping nothing: the world it leaves is the one after the last check. It
  returns nil exactly when no required check failed, so the failure of an optional check
  causes no error; and when a required check failed, it returns the one error
  "requirement check(s) failed: " followed by the messages "<name>: <error>" of all the
  failed required checks, in order, joined by "; ". Registration puts a requirement
  behind those registered before.
\<close>

theorem Check_collects:
  assumes "runChecks (requirements rc) ctx w = (rs, w')"
  shows "snd (Check rc ctx w) = w' \<and>
     (fst (Check rc ctx w) = None \<longleftrightarrow>
        (\<forall>p \<in> set (zip (requirements rc) rs). Required (fst p) \<longrightarrow> snd p = None)) \<and>
     (fst (Check rc ctx w) \<noteq> None \<longrightarrow>
        fst (Check rc ctx w) =
          Some (str ''requirement check(s) failed: '' @
                Join (failedMessages True (requirements rc) rs) (str ''; ''))) \<and>
     requirements (Add rc req) = requirements rc @ [req]"
proof -
  have "requirements (Add rc req) = requirements rc @ [req]"
    by (simp add: Add_def)
  with Check_runChecks [OF assms] show ?thesis by blast
qed

theorem Check_collects_witness:
  "runChecks (requirements exampleChecker) exampleContext [] =
     ([Some (str ''mode not set in context''), Some (str ''no cache directory''), None,
       Some (str ''API key not set'')],
      [str ''mode'', str ''cache'', str ''config'', str ''api-key'']) \<and>
   Check exampleChecker exampleContext [] =
     (Some (str ''requirement check(s) failed: mode: mode not set in context; api-key: API key not set''),
      [str ''mode'', str ''cache'', str ''config'', str ''api-key''])"
  using Check_collects [of exampleChecker exampleContext "[]"
      "[Some (str ''mode not set in context''), Some (str ''no cache directory''), None,
        Some (str ''API key not set'')]"
      "[str ''mode'', str ''cache'', str ''config'', str ''api-key'']"]
  by (simp add: exampleChecker_def AddRequired_def AddOptional_def Add_def
      NewRequirementChecker_def prod_eq_iff str_def)

section \<open>Properties of the commands\<close>

lemma containsMode_iff: "containsMode ms m \<longleftrightarrow> m \<in> set ms"
  by (induction ms) auto

text \<open>A command that \<open>Register\<close> has taken is found under its name.\<close>

lemma Register_commands:
  "Register cr C = (Return u, cr') \<Longrightarrow> commands cr' (Name C) = Some C"
  by (auto simp: Register_def split: if_splits)

lemma exampleRegistry_eq:
  "exampleRegistry = \<lparr>commands = [str ''ask'' \<mapsto> interactiveCommand,
     str ''status'' \<mapsto> statusCommand]\<rparr>"
  by (simp add: exampleRegistry_def Register_def interactiveCommand_def statusCommand_def
      str_def)

text \<open>
  C8. For a command C registered under a name: when the context carries a mode M, the
  modes of C are not empty and M is not among them, \<open>Execute\<close> returns the error
  "command /<name> not available in <M> mode" and leaves the world as it was, whatever
  the handler of C is: the handler is not called. When the modes of C are empty, or
  contain the mode of the context, or the context carries no mode, \<open>Execute\<close> is the
  call of the handler with the context and the arguments, and returns what it returns.
\<close>

theorem Execute_mode_filter:
  "commands cr name = Some C \<Longrightarrow>
     (ctx_mode ctx = Some M \<and> Modes C \<noteq> [] \<and> M \<notin> set (Modes C) \<longrightarrow>
        Execute cr ctx name args w =
          ((None, Some (str ''command /'' @ name @ str '' not available in '' @ M @
                        str '' mode'')), w) \<and>
        Execute (cr\<lparr>commands := (commands cr)(name \<mapsto> C\<lparr>Handler := h\<rparr>)\<rparr>) ctx name args w =
          Execute cr ctx name args w) \<and>
     (Modes C = [] \<or> (\<exists>M. ctx_mode ctx = Some M \<and> M \<in> set (Modes C)) \<or> ctx_mode ctx = None \<longrightarrow>
        Execute cr ctx name args w = Handler C ctx args w)"
  by (auto simp: Execute_def containsMode_iff split: option.splits)

theorem Execute_mode_filter_witness:
  "commands exampleRegistry (str ''ask'') = Some interactiveCommand \<and>
   Modes interactiveCommand = [ModeInteractive] \<and>
   Execute exampleRegistry exampleContext (str ''ask'') [str ''hi''] (0::nat) =
     ((None, Some (str ''command /ask not available in daemon mode'')), 0) \<and>
   Execute exampleRegistry (exampleContext\<lparr>ctx_mode := Some ModeInteractive\<rparr>) (str ''ask'')
       [str ''hi''] (0::nat) =
     ((Some \<lparr>Output = str ''hi'', Data = AnyNil, Broadcast = False\<rparr>, None), 1) \<and>
   Execute exampleRegistry (exampleContext\<lparr>ctx_mode := None\<rparr>) (str ''ask'')
       [str ''hi''] (0::nat) =
     ((Some \<lparr>Output = str ''hi'', Data = AnyNil, Broadcast = False\<rparr>, None), 1)"
  using Execute_mode_filter [of exampleRegistry "str ''ask''" interactiveCommand
      exampleContext ModeDaemon "[str ''hi'']" 0 "Handler statusCommand"]
    Execute_mode_filter [of exampleRegistry "str ''ask''" interactiveCommand
      "exampleContext\<lparr>ctx_mode := Some ModeInteractive\<rparr>" ModeDaemon "[str ''hi'']" 0
      "Handler statusCommand"]
    Execute_mode_filter [of exampleRegistry "str ''ask''" interactiveCommand
      "exampleContext\<lparr>ctx_mode := None\<rparr>" ModeDaemon "[str ''hi'']" 0
      "Handler statusCommand"]
  by (simp add: exampleRegistry_eq interactiveCommand_def exampleContext_def ModeDaemon_def
      ModeInteractive_def str_def)

text \<open>\<open>strings.Fields\<close> and \<open>strings.TrimSpace\<close>: white space at either end yields no field.\<close>

lemma fieldsFrom_spaces_front:
  "\<forall>r \<in> set ws. isSpace r \<Longrightarrow> fieldsFrom [] (ws @ s) = fieldsFrom [] s"
  by (induction ws) auto

lemma fieldsFrom_spaces_only:
  "\<forall>r \<in> set ws. isSpace r \<Longrightarrow> fieldsFrom cur ws = (if cur = [] then [] else [cur])"
  by (induction ws arbitrary: cur) auto

lemma fieldsFrom_spaces_back:
  "\<forall>r \<in> set ws. isSpace r \<Longrightarrow> fieldsFrom cur (s @ ws) = fieldsFrom cur s"
  by (induction s arbitrary: cur) (auto simp: fieldsFrom_spaces_only)

lemma Fields_dropWhile: "Fields (dropWhile isSpace s) = Fields s"
proof -
  have "fieldsFrom [] (takeWhile isSpace s @ dropWhile isSpace s) = fieldsFrom [] (dropWhile isSpace s)"
    by (rule fieldsFrom_spaces_front) (auto dest: set_takeWhileD)
  then show ?thesis by (simp add: Fields_def)
qed

lemma trimRight_decomp: "\<exists>ws. s = trimRight s @ ws \<and> (\<forall>r \<in> set ws. isSpace r)"
proof -
  have "rev s = takeWhile isSpace (rev s) @ dropWhile isSpace (rev s)" by simp
  then have "s = rev (dropWhile isSpace (rev s)) @ rev (takeWhile isSpace (rev s))"
    by (metis rev_append rev_rev_ident)
  moreover have "\<forall>r \<in> set (rev (takeWhile isSpace (rev s))). isSpace r"
    by (auto dest: set_takeWhileD)
  ultimately show ?thesis unfolding trimRight_def by blast
qed

lemma Fields_trimRight: "Fields (trimRight s) = Fields s"
proof -
  obtain ws where "s = trimRight s @ ws" "\<forall>r \<in> set ws. isSpace r"
    using trimRight_decomp by blast
  then show ?thesis
    unfolding Fields_def using fieldsFrom_spaces_back [of ws "[]" "trimRight s"] by simp
qed

lemma TrimSpace_trimRight: "TrimSpace s = trimRight (dropWhile isSpace s)"
  by (simp add: TrimSpace_def trimRight_def)

lemma Fields_TrimSpace: "Fields (TrimSpace s) = Fields s"
  by (simp add: TrimSpace_trimRight Fields_trimRight Fields_dropWhile)

lemma slash_not_space: "\<not> isSpace 47"
  by (simp add: isSpace_def)

lemma str_slash: "str ''/'' = [47]"
  by (simp add: str_def)

lemma trimRight_nonspace: "\<not> isSpace r \<Longrightarrow> trimRight (r # s) = r # trimRight s"
  by (simp add: trimRight_def dropWhile_append3)

lemma TrimSpace_slash: "TrimSpace (47 # s) = 47 # trimRight s"
proof -
  have "dropWhile isSpace (47 # s) = 47 # s"
    using slash_not_space by simp
  then have "TrimSpace (47 # s) = trimRight (47 # s)"
    unfolding TrimSpace_def trimRight_def by simp
  then show ?thesis
    using trimRight_nonspace [OF slash_not_space] by simp
qed

lemma TrimSpace_Nil_iff: "TrimSpace s = [] \<longleftrightarrow> (\<forall>r \<in> set s. isSpace r)"
proof
  assume "TrimSpace s = []"
  then have "dropWhile isSpace (rev (dropWhile isSpace s)) = []"
    by (simp add: TrimSpace_def)
  then have a: "\<forall>x \<in> set (dropWhile isSpace s). isSpace x"
    by (simp add: dropWhile_eq_Nil_conv)
  have "dropWhile isSpace s = []"
  proof (cases "dropWhile isSpace s")
    case Nil
    then show ?thesis .
  next
    case (Cons x xs)
    then have "\<not> isSpace x" by (simp add: dropWhile_eq_Cons_conv)
    moreover from Cons a have "isSpace x" by simp
    ultimately show ?thesis by simp
  qed
  then show "\<forall>r \<in> set s. isSpace r"
    by (simp add: dropWhile_eq_Nil_conv)
next
  assume "\<forall>r \<in> set s. isSpace r"
  then have d: "dropWhile isSpace s = []" by simp
  show "TrimSpace s = []" unfolding TrimSpace_def d by simp
qed

lemma fieldsFrom_nonempty: "t \<in> set (fieldsFrom cur s) \<Longrightarrow> t \<noteq> []"
proof (induction s arbitrary: cur)
  case Nil
  then show ?case by (simp split: if_splits)
next
  case (Cons r s)
  show ?case
  proof (cases "isSpace r")
    case True
    with Cons.prems have "t = cur \<and> cur \<noteq> [] \<or> t \<in> set (fieldsFrom [] s)"
      by (simp split: if_splits)
    with Cons.IH [of "[]"] show ?thesis by blast
  next
    case False
    with Cons.prems have "t \<in> set (fieldsFrom (cur @ [r]) s)" by simp
    then show ?thesis by (rule Cons.IH)
  qed
qed

lemma fieldsFrom_split:
  "isSpace c \<Longrightarrow> fieldsFrom cur (a @ c # b) = fieldsFrom cur a @ fieldsFrom [] b"
proof (induction a arbitrary: cur)
  case Nil
  then show ?case by simp
next
  case (Cons r a)
  show ?case
  proof (cases "isSpace r")
    case True
    then show ?thesis using Cons.IH [OF Cons.prems, of "[]"] by simp
  next
    case False
    then show ?thesis using Cons.IH [OF Cons.prems, of "cur @ [r]"] by simp
  qed
qed

lemma fieldsFrom_token:
  "\<forall>x \<in> set t. \<not> isSpace x \<Longrightarrow> fieldsFrom cur t = (if cur @ t = [] then [] else [cur @ t])"
proof (induction t arbitrary: cur)
  case Nil
  then show ?case by simp
next
  case (Cons r t)
  then have "\<not> isSpace r" "\<forall>x \<in> set t. \<not> isSpace x" by simp_all
  with Cons.IH [of "cur @ [r]"] show ?case by simp
qed

text \<open>\<open>Route\<close>, by what the line holds once trimmed and split.\<close>

lemma Route_empty:
  "TrimSpace L = [] \<Longrightarrow> Route r ctx L w = ((None, Some (str ''empty command'')), w)"
  by (simp add: Route_def)

lemma parseCommand_tokens:
  "Fields (TrimPrefix t (str ''/'')) = name # args \<Longrightarrow> parseCommand t = (name, args)"
  by (simp add: parseCommand_def)

lemma Route_tokens:
  assumes "Fields (TrimPrefix (TrimSpace L) (str ''/'')) = name # args"
  shows "Route r ctx L w = Execute (registry r) ctx name args w"
proof -
  have ne: "TrimSpace L \<noteq> []"
  proof
    assume "TrimSpace L = []"
    with assms show False by (simp add: TrimPrefix_def HasPrefix_def Fields_def str_def)
  qed
  have "name \<in> set (fieldsFrom [] (TrimPrefix (TrimSpace L) (str ''/'')))"
    using assms by (simp add: Fields_def)
  then have "name \<noteq> []" by (rule fieldsFrom_nonempty)
  then show ?thesis
    using ne parseCommand_tokens [OF assms] by (simp add: Route_def)
qed

lemma Route_no_tokens:
  assumes "TrimSpace L \<noteq> []" "Fields (TrimPrefix (TrimSpace L) (str ''/'')) = []"
  shows "Route r ctx L w = ((None, Some (str ''invalid command format'')), w)"
  using assms by (simp add: Route_def parseCommand_def)

text \<open>
  A line and the same line behind the marker "/" are routed alike, when the line holds
  something other than white space and does not begin with the marker itself.
\<close>

lemma Route_marker:
  assumes "TrimSpace L \<noteq> []" "\<not> HasPrefix (TrimSpace L) (str ''/'')"
  shows "Route r ctx (str ''/'' @ L) w = Route r ctx L w"
proof -
  have t1: "TrimSpace (str ''/'' @ L) = 47 # trimRight L"
    by (simp add: str_slash TrimSpace_slash)
  have p1: "TrimPrefix (TrimSpace (str ''/'' @ L)) (str ''/'') = trimRight L"
    by (simp add: str_slash TrimSpace_slash TrimPrefix_def HasPrefix_def)
  have p2: "TrimPrefix (TrimSpace L) (str ''/'') = TrimSpace L"
    using assms(2) by (simp add: TrimPrefix_def)
  have f1: "Fields (TrimPrefix (TrimSpace (str ''/'' @ L)) (str ''/'')) = Fields L"
    unfolding p1 by (rule Fields_trimRight)
  have f2: "Fields (TrimPrefix (TrimSpace L) (str ''/'')) = Fields L"
    unfolding p2 by (rule Fields_TrimSpace)
  have ne1: "TrimSpace (str ''/'' @ L) \<noteq> []"
    unfolding t1 by simp
  show ?thesis
  proof (cases "Fields L")
    case Nil
    have "Route r ctx (str ''/'' @ L) w = ((None, Some (str ''invalid command format'')), w)"
      using ne1 f1 Nil by (intro Route_no_tokens) simp_all
    moreover have "Route r ctx L w = ((None, Some (str ''invalid command format'')), w)"
      using assms(1) f2 Nil by (intro Route_no_tokens) simp_all
    ultimately show ?thesis by simp
  next
    case (Cons name args)
    have "Route r ctx (str ''/'' @ L) w = Execute (registry r) ctx name args w"
      using f1 Cons by (intro Route_tokens) simp
    moreover have "Route r ctx L w = Execute (registry r) ctx name args w"
      using f2 Cons by (intro Route_tokens) simp
    ultimately show ?thesis by simp
  qed
qed

lemma isSpace_simps:
  "isSpace 32" "\<not> isSpace 47" "\<not> isSpace 97" "\<not> isSpace 98" "\<not> isSpace 103"
  "\<not> isSpace 111" "\<not> isSpace 115" "\<not> isSpace 116" "\<not> isSpace 117"
  "\<not> isSpace 120" "\<not> isSpace 121"
  by (simp_all add: isSpace_def)

text \<open>
  C7, as the code has it. \<open>Route\<close> returns the error "empty command" for a line that
  is empty or holds white space only. A line that holds more, and whose first character
  after trimming is not "/", is routed like the same line with "/" put in front. The
  line, trimmed and with one leading "/" removed, is split into its fields; the first
  is the command name, the others are the arguments, and \<open>Route\<close> is \<open>Execute\<close> on them:
  for a name the registry does not hold, the error "unknown command: <name>". When the
  trimmed line has no field, the error is "invalid command format". The fields are what
  a split at white space gives: no field in the empty string, the fields of the part
  before a white space character followed by the fields of the part behind it, and a
  non-empty string without white space is its own single field.
\<close>

theorem Route_parses:
  "((\<forall>x \<in> set L. isSpace x) \<longrightarrow>
      Route r ctx L w = ((None, Some (str ''empty command'')), w)) \<and>
   (TrimSpace L \<noteq> [] \<and> \<not> HasPrefix (TrimSpace L) (str ''/'') \<longrightarrow>
      Route r ctx (str ''/'' @ L) w = Route r ctx L w) \<and>
   (Fields (TrimPrefix (TrimSpace L) (str ''/'')) = name # args \<longrightarrow>
      Route r ctx L w = Execute (registry r) ctx name args w \<and>
      (commands (registry r) name = None \<longrightarrow>
         Route r ctx L w = ((None, Some (str ''unknown command: '' @ name)), w))) \<and>
   (TrimSpace L \<noteq> [] \<and> Fields (TrimPrefix (TrimSpace L) (str ''/'')) = [] \<longrightarrow>
      Route r ctx L w = ((None, Some (str ''invalid command format'')), w)) \<and>
   Fields [] = [] \<and>
   (isSpace c \<longrightarrow> Fields (a @ c # b) = Fields a @ Fields b) \<and>
   (t \<noteq> [] \<and> (\<forall>x \<in> set t. \<not> isSpace x) \<longrightarrow> Fields t = [t])"
proof -
  have 1: "(\<forall>x \<in> set L. isSpace x) \<longrightarrow>
      Route r ctx L w = ((None, Some (str ''empty command'')), w)"
    using Route_empty [of L r ctx w] by (simp add: TrimSpace_Nil_iff)
  have 2: "TrimSpace L \<noteq> [] \<and> \<not> HasPrefix (TrimSpace L) (str ''/'') \<longrightarrow>
      Route r ctx (str ''/'' @ L) w = Route r ctx L w"
    using Route_marker [of L r ctx w] by blast
  have 3: "Route r ctx L w = Execute (registry r) ctx name args w \<and>
      (commands (registry r) name = None \<longrightarrow>
         Route r ctx L w = ((None, Some (str ''unknown command: '' @ name)), w))"
    if "Fields (TrimPrefix (TrimSpace L) (str ''/'')) = name # args"
    using Route_tokens [OF that, of r ctx w] by (simp add: Execute_def)
  have 4: "TrimSpace L \<noteq> [] \<and> Fields (TrimPrefix (TrimSpace L) (str ''/'')) = [] \<longrightarrow>
      Route r ctx L w = ((None, Some (str ''invalid command format'')), w)"
    using Route_no_tokens [of L r ctx w] by blast
  have 5: "Fields [] = []" by (simp add: Fields_def)
  have 6: "isSpace c \<longrightarrow> Fields (a @ c # b) = Fields a @ Fields b"
    by (simp add: Fields_def fieldsFrom_split)
  have 7: "t \<noteq> [] \<and> (\<forall>x \<in> set t. \<not> isSpace x) \<longrightarrow> Fields t = [t]"
    by (simp add: Fields_def fieldsFrom_token)
  from 1 2 3 4 5 6 7 show ?thesis by blast
qed

theorem Route_parses_witness:
  "TrimSpace (str ''  '') = [] \<and>
   Route exampleRouter exampleContext (str ''  '') (0::nat) =
     ((None, Some (str ''empty command'')), 0) \<and>
   TrimSpace (str ''status'') \<noteq> [] \<and> \<not> HasPrefix (TrimSpace (str ''status'')) (str ''/'') \<and>
   Route exampleRouter exampleContext (str ''/status'') (0::nat) =
     Route exampleRouter exampleContext (str ''status'') 0 \<and>
   Route exampleRouter exampleContext (str ''status'') (0::nat) =
     ((Some \<lparr>Output = str ''Status: Running'', Data = AnyNil, Broadcast = False\<rparr>, None), 1) \<and>
   Fields (TrimPrefix (TrimSpace (str '' /bogus  a b '')) (str ''/'')) =
     [str ''bogus'', str ''a'', str ''b''] \<and>
   commands (registry exampleRouter) (str ''bogus'') = None \<and>
   Route exampleRouter exampleContext (str '' /bogus  a b '') (0::nat) =
     ((None, Some (str ''unknown command: bogus'')), 0) \<and>
   Fields (str ''a b'') = Fields (str ''a'') @ Fields (str ''b'') \<and>
   Fields (str ''a'') = [str ''a'']"
  using Route_parses [where L = "str ''  ''" and r = exampleRouter and ctx = exampleContext
      and w = "0::nat" and name = "str ''bogus''" and args = "[]" and c = 32
      and a = "str ''a''" and b = "str ''b''" and t = "str ''a''"]
    Route_parses [where L = "str ''status''" and r = exampleRouter and ctx = exampleContext
      and w = "0::nat" and name = "str ''status''" and args = "[]" and c = 32
      and a = "str ''a''" and b = "str ''b''" and t = "str ''a''"]
    Route_parses [where L = "str '' /bogus  a b ''" and r = exampleRouter
      and ctx = exampleContext and w = "0::nat" and name = "str ''bogus''"
      and args = "[str ''a'', str ''b'']" and c = 32
      and a = "str ''a''" and b = "str ''b''" and t = "str ''a''"]
  by (simp add: str_def isSpace_simps TrimSpace_def TrimPrefix_def HasPrefix_def Fields_def
      Execute_def exampleRouter_def exampleRegistry_eq statusCommand_def exampleContext_def
      ModeDaemon_def ModeInteractive_def)

text \<open>
  C7, as the claim states it, fails for the marker. The line "/" ends in the error
  "invalid command format", the empty line without it in "empty command"; and the line
  "/status" with a marker in front, "//status", is the unknown command "/status", while
  "/status" itself runs the command "status".
\<close>

theorem Route_marker_differs:
  "Route exampleRouter exampleContext (str ''/'') (0::nat) =
     ((None, Some (str ''invalid command format'')), 0) \<and>
   Route exampleRouter exampleContext [] (0::nat) = ((None, Some (str ''empty command'')), 0) \<and>
   Route exampleRouter exampleContext (str ''/'' @ []) (0::nat) \<noteq>
     Route exampleRouter exampleContext [] 0 \<and>
   Route exampleRouter exampleContext (str ''/'' @ str ''/status'') (0::nat) =
     ((None, Some (str ''unknown command: /status'')), 0) \<and>
   Route exampleRouter exampleContext (str ''/status'') (0::nat) =
     ((Some \<lparr>Output = str ''Status: Running'', Data = AnyNil, Broadcast = False\<rparr>, None), 1)"
  by (simp add: str_def isSpace_simps TrimSpace_def TrimPrefix_def HasPrefix_def Fields_def
      Route_def parseCommand_def Execute_def
      exampleRouter_def exampleRegistry_eq statusCommand_def exampleContext_def
      ModeDaemon_def ModeInteractive_def)

end
